theory Spec2Isabelle
  imports Complex_Main "HOL-Library.Char_ord" "HOL-Library.List_Lexorder"
begin

section \<open>The scheduling client and its store\<close>

text \<open>
  A shallow embedding of \<^verbatim>\<open>SchedulingClient\<close> (api/clients/scheduling.py) and of
  \<^verbatim>\<open>init_default_data\<close> (api/main.py).

  The client talks to a PostgreSQL server. The model keeps the three tables the client
  declares in \<^verbatim>\<open>init\<close> as lists of rows, and gives every SQL statement of the source
  its effect on those lists, with the constraints of the declared schema: the primary
  keys behind the two \<^verbatim>\<open>ON CONFLICT\<close> upserts, the foreign key from
  \<^verbatim>\<open>schedules.first_line_support\<close> to \<^verbatim>\<open>employees.employee_number\<close>, and the
  widths and ranges of the \<^verbatim>\<open>VARCHAR\<close> and \<^verbatim>\<open>INT\<close> columns.

  Every round trip to the server (a connection attempt or one \<^verbatim>\<open>cursor.execute\<close>) can
  also fail for reasons neither the tables nor the statement determine: the network, a
  timeout. The field \<open>replies\<close> of the world lists what the server will answer to the
  coming round trips, in order; an exhausted list answers \<open>Ok\<close>.
  A Python exception is the left injection of the result.

  The connection is opened with \<^verbatim>\<open>autocommit=True\<close>: every statement that succeeds is
  committed at once, so a statement's effect is applied to the tables when it returns.
\<close>

subsection \<open>Rows\<close>

record employee =
  employee_number :: string
  name :: string
  first_line_support_count :: int
  known_absences :: "string list"
  metadata :: "(string \<times> string) list"

record schedule =
  date :: string
  first_line_support :: string

text \<open>
  The column \<^verbatim>\<open>preferred_balance\<close> is a float that the client only stores and reads
  back; it is kept as a rational, and the default \<^verbatim>\<open>0.2\<close> as \<open>1/5\<close>.
\<close>

record rule =
  rule_id :: string
  max_days_per_week :: int
  preferred_balance :: rat

subsection \<open>The world: client fields, tables, server replies\<close>

datatype error =
    OperationalError
  | AttributeError
  | ForeignKeyViolation
  | UniqueViolation
  | StringDataRightTruncation
  | NumericValueOutOfRange
  | NotAvailable

datatype reply = Ok | Err | Lost

text \<open>The database: the three tables of the schema, as lists of rows.\<close>

record db =
  employees :: "employee list"
  schedules :: "schedule list"
  rules :: "rule list"

text \<open>
  \<open>conn\<close> is \<^verbatim>\<open>self.conn\<close>: \<open>None\<close> before the first connection, \<open>Some closed\<close>
  afterwards. \<open>slept\<close> records the arguments of \<^verbatim>\<open>time.sleep\<close>, as rationals.
  \<open>Err\<close> fails a round trip and leaves the connection open; \<open>Lost\<close> fails it and leaves
  the connection closed.
\<close>

record world =
  conn :: "bool option"
  is_query_service_ready :: bool
  tables_created :: bool
  store :: db
  slept :: "rat list"
  replies :: "reply list"

type_synonym 'a result = "(error + 'a) \<times> world"

subsection \<open>Running one statement\<close>

text \<open>
  A statement maps the database to a constraint violation, or to what the cursor then
  holds and the database after the statement.
\<close>

type_synonym 'a statement = "db \<Rightarrow> error + 'a \<times> db"

text \<open>
  \<^verbatim>\<open>with self.conn.cursor() as cursor: cursor.execute(...)\<close>. Without a connection object
  the attribute access raises; on a closed connection psycopg raises; otherwise the
  server's next reply decides, and on \<open>Ok\<close> the statement runs against the tables.
\<close>

definition run :: "'a statement \<Rightarrow> world \<Rightarrow> 'a result" where
  "run q w =
     (case q (store w) of
        Inl x \<Rightarrow> (Inl x, w)
      | Inr (v, d) \<Rightarrow> (Inr v, w\<lparr>store := d\<rparr>))"

definition execute :: "'a statement \<Rightarrow> world \<Rightarrow> 'a result" where
  "execute q w =
     (case conn w of
        None \<Rightarrow> (Inl AttributeError, w)
      | Some True \<Rightarrow> (Inl OperationalError, w)
      | Some False \<Rightarrow>
          (case replies w of
             [] \<Rightarrow> run q w
           | Ok # rs \<Rightarrow> run q (w\<lparr>replies := rs\<rparr>)
           | Err # rs \<Rightarrow> (Inl OperationalError, w\<lparr>replies := rs\<rparr>)
           | Lost # rs \<Rightarrow> (Inl OperationalError, w\<lparr>replies := rs, conn := Some True\<rparr>)))"

subsection \<open>The column types of the schema\<close>

text \<open>
  \<^verbatim>\<open>VARCHAR(n)\<close> (the employee number and the rule id in 36 characters, the name in 255,
  the date in 10) and \<^verbatim>\<open>INT\<close> (\<^verbatim>\<open>first_line_support_count\<close>, \<^verbatim>\<open>max_days_per_week\<close>:
  32 bits, signed). A statement that writes a value its column cannot hold is refused.
  A character of the model is a character of the Python string. PostgreSQL makes one
  exception, for a string whose characters beyond the width are all spaces, which it
  stores cut to the width; the model refuses it like every longer string.
\<close>

definition varchar :: "nat \<Rightarrow> string \<Rightarrow> bool" where
  "varchar n s = (length s \<le> n)"

definition int4 :: "int \<Rightarrow> bool" where
  "int4 c = (- 2147483648 \<le> c \<and> c \<le> 2147483647)"


subsection \<open>The SQL statements of the source\<close>

text \<open>The four \<^verbatim>\<open>CREATE ... IF NOT EXISTS\<close> statements change no row.\<close>

definition ddl :: "unit statement" where
  "ddl d = Inr ((), d)"

definition select_1 :: "unit statement" where
  "select_1 d = Inr ((), d)"

text \<open>
  \<^verbatim>\<open>INSERT INTO employees (...) VALUES (e, n, 0, ka, md) ON CONFLICT (employee_number)
  DO UPDATE SET name, known_absences, metadata\<close>.
\<close>

definition insert_employee ::
  "string \<Rightarrow> string \<Rightarrow> string list \<Rightarrow> (string \<times> string) list \<Rightarrow> unit statement" where
  "insert_employee e n ka md d =
     (if \<not> varchar 36 e \<or> \<not> varchar 255 n then Inl StringDataRightTruncation
      else if e \<in> set (map employee_number (employees d))
      then Inr ((), d\<lparr>employees :=
              map (\<lambda>r. if employee_number r = e
                        then r\<lparr>name := n, known_absences := ka, metadata := md\<rparr> else r)
                  (employees d)\<rparr>)
      else Inr ((), d\<lparr>employees := employees d @
              [\<lparr>employee_number = e, name = n, first_line_support_count = 0,
                known_absences = ka, metadata = md\<rparr>]\<rparr>))"

text \<open>\<^verbatim>\<open>SELECT ... FROM employees WHERE employee_number = e\<close>, then \<^verbatim>\<open>fetchone\<close>.\<close>

definition select_employee :: "string \<Rightarrow> employee option statement" where
  "select_employee e d = Inr (find (\<lambda>r. employee_number r = e) (employees d), d)"

text \<open>\<^verbatim>\<open>SELECT ... FROM employees\<close>, then \<^verbatim>\<open>fetchall\<close>.\<close>

definition select_employees :: "employee list statement" where
  "select_employees d = Inr (employees d, d)"

text \<open>
  \<^verbatim>\<open>UPDATE employees SET name, first_line_support_count, known_absences, metadata
  WHERE employee_number = e\<close>. The name must fit \<^verbatim>\<open>VARCHAR(255)\<close> and the count
  \<^verbatim>\<open>INT\<close>.
\<close>

definition update_employee_row ::
  "string \<Rightarrow> string \<Rightarrow> int \<Rightarrow> string list \<Rightarrow> (string \<times> string) list \<Rightarrow> unit statement" where
  "update_employee_row e n c ka md d =
     (if \<not> varchar 255 n then Inl StringDataRightTruncation
      else if \<not> int4 c then Inl NumericValueOutOfRange
      else Inr ((), d\<lparr>employees :=
             map (\<lambda>r. if employee_number r = e
                       then r\<lparr>name := n, first_line_support_count := c,
                              known_absences := ka, metadata := md\<rparr> else r)
                 (employees d)\<rparr>))"

text \<open>\<^verbatim>\<open>SELECT date FROM schedules WHERE first_line_support = e\<close>, then \<^verbatim>\<open>fetchall\<close>.\<close>

definition select_dates_of :: "string \<Rightarrow> string list statement" where
  "select_dates_of e d =
     Inr (map date (filter (\<lambda>s. first_line_support s = e) (schedules d)), d)"

text \<open>\<^verbatim>\<open>DELETE FROM schedules WHERE first_line_support = e\<close>.\<close>

definition delete_schedules_of :: "string \<Rightarrow> unit statement" where
  "delete_schedules_of e d =
     Inr ((), d\<lparr>schedules := filter (\<lambda>s. first_line_support s \<noteq> e) (schedules d)\<rparr>)"

text \<open>
  \<^verbatim>\<open>DELETE FROM employees WHERE employee_number = e\<close>, returning \<^verbatim>\<open>cursor.rowcount\<close>.
  The foreign key of \<^verbatim>\<open>schedules\<close> refuses to delete a row that is still referenced.
\<close>

definition delete_employee_row :: "string \<Rightarrow> nat statement" where
  "delete_employee_row e d =
     (if e \<in> set (map employee_number (employees d)) \<and>
         e \<in> set (map first_line_support (schedules d))
      then Inl ForeignKeyViolation
      else Inr (length (filter (\<lambda>r. employee_number r = e) (employees d)),
                d\<lparr>employees := filter (\<lambda>r. employee_number r \<noteq> e) (employees d)\<rparr>))"

text \<open>
  \<^verbatim>\<open>INSERT INTO schedules (date, first_line_support) VALUES (s, e) ON CONFLICT (date)
  DO UPDATE SET first_line_support\<close>. The foreign key refuses an employee number that
  no employee row bears.
\<close>

definition insert_schedule :: "string \<Rightarrow> string \<Rightarrow> unit statement" where
  "insert_schedule date_str e d =
     (if \<not> varchar 10 date_str \<or> \<not> varchar 36 e then Inl StringDataRightTruncation
      else if e \<notin> set (map employee_number (employees d)) then Inl ForeignKeyViolation
      else if date_str \<in> set (map date (schedules d))
      then Inr ((), d\<lparr>schedules :=
              map (\<lambda>s. if date s = date_str then s\<lparr>first_line_support := e\<rparr> else s)
                  (schedules d)\<rparr>)
      else Inr ((), d\<lparr>schedules :=
              schedules d @ [\<lparr>date = date_str, first_line_support = e\<rparr>]\<rparr>))"

text \<open>\<^verbatim>\<open>SELECT date, first_line_support FROM schedules WHERE date = s\<close>, then \<^verbatim>\<open>fetchone\<close>.\<close>

definition select_schedule :: "string \<Rightarrow> schedule option statement" where
  "select_schedule date_str d = Inr (find (\<lambda>s. date s = date_str) (schedules d), d)"

text \<open>
  The query \<^verbatim>\<open>get_schedules\<close> builds: a \<^verbatim>\<open>WHERE\<close> clause for each bound that is truthy
  (neither \<^verbatim>\<open>None\<close> nor the empty string), then \<^verbatim>\<open>ORDER BY date ASC\<close>. Strings are
  compared character by character, by character code.
\<close>

definition truthy :: "string option \<Rightarrow> bool" where
  "truthy b = (case b of None \<Rightarrow> False | Some s \<Rightarrow> s \<noteq> [])"

definition select_schedules :: "string option \<Rightarrow> string option \<Rightarrow> schedule list statement" where
  "select_schedules start_date end_date d =
     Inr (sort_key date
            (filter (\<lambda>s. (if truthy start_date then the start_date \<le> date s else True) \<and>
                         (if truthy end_date then date s \<le> the end_date else True))
               (schedules d)), d)"

text \<open>
  \<^verbatim>\<open>UPDATE schedules SET first_line_support = e WHERE date = s\<close>, returning
  \<^verbatim>\<open>cursor.rowcount\<close>. The foreign key is checked for the rows the statement writes.
\<close>

definition update_schedule_row :: "string \<Rightarrow> string \<Rightarrow> nat statement" where
  "update_schedule_row date_str e d =
     (if \<not> varchar 36 e then Inl StringDataRightTruncation
      else if date_str \<in> set (map date (schedules d)) \<and>
         e \<notin> set (map employee_number (employees d))
      then Inl ForeignKeyViolation
      else Inr (length (filter (\<lambda>s. date s = date_str) (schedules d)),
                d\<lparr>schedules :=
                  map (\<lambda>s. if date s = date_str then s\<lparr>first_line_support := e\<rparr> else s)
                      (schedules d)\<rparr>))"

text \<open>\<^verbatim>\<open>DELETE FROM schedules WHERE date = s\<close>, returning \<^verbatim>\<open>cursor.rowcount\<close>.\<close>

definition delete_schedule_row :: "string \<Rightarrow> nat statement" where
  "delete_schedule_row date_str d =
     Inr (length (filter (\<lambda>s. date s = date_str) (schedules d)),
          d\<lparr>schedules := filter (\<lambda>s. date s \<noteq> date_str) (schedules d)\<rparr>)"

text \<open>\<^verbatim>\<open>UPDATE employees SET first_line_support_count = 0\<close>.\<close>

definition reset_counts :: "unit statement" where
  "reset_counts d =
     Inr ((), d\<lparr>employees := map (\<lambda>r. r\<lparr>first_line_support_count := 0\<rparr>) (employees d)\<rparr>)"

text \<open>
  \<^verbatim>\<open>SELECT first_line_support, COUNT(*) FROM schedules GROUP BY first_line_support\<close>,
  then \<^verbatim>\<open>fetchall\<close>: one pair for each employee number the table mentions.
\<close>

definition count_schedules :: "(string \<times> int) list statement" where
  "count_schedules d =
     Inr (map (\<lambda>e. (e, int (length (filter (\<lambda>s. first_line_support s = e) (schedules d)))))
            (remdups (map first_line_support (schedules d))), d)"

text \<open>
  \<^verbatim>\<open>UPDATE employees SET first_line_support_count = c WHERE employee_number = e\<close>. The
  source writes here only what \<^verbatim>\<open>COUNT(*)\<close> returned, a number of rows of the schedule
  table, which is taken to fit the column.
\<close>

definition set_count :: "int \<Rightarrow> string \<Rightarrow> unit statement" where
  "set_count c e d =
     Inr ((), d\<lparr>employees :=
        map (\<lambda>r. if employee_number r = e then r\<lparr>first_line_support_count := c\<rparr> else r)
            (employees d)\<rparr>)"

text \<open>\<^verbatim>\<open>SELECT ... FROM rules WHERE id = 'system_rules'\<close>, then \<^verbatim>\<open>fetchone\<close>.\<close>

definition select_system_rules :: "rule option statement" where
  "select_system_rules d = Inr (find (\<lambda>r. rule_id r = ''system_rules'') (rules d), d)"

text \<open>
  \<^verbatim>\<open>INSERT INTO rules (id, max_days_per_week, preferred_balance) VALUES ('system_rules', m, b)\<close>;
  the primary key refuses a second row of that id.
\<close>

definition insert_rules :: "int \<Rightarrow> rat \<Rightarrow> unit statement" where
  "insert_rules m b d =
     (if \<not> int4 m then Inl NumericValueOutOfRange
      else if ''system_rules'' \<in> set (map rule_id (rules d)) then Inl UniqueViolation
      else Inr ((), d\<lparr>rules := rules d @
              [\<lparr>rule_id = ''system_rules'', max_days_per_week = m, preferred_balance = b\<rparr>]\<rparr>))"


subsection \<open>Connecting and initialising\<close>

text \<open>
  \<^verbatim>\<open>psycopg.connect(...)\<close>: one round trip. On success \<^verbatim>\<open>self.conn\<close> is the new, open
  connection; on failure the assignment does not happen.
\<close>

definition psycopg_connect :: "world \<Rightarrow> unit result" where
  "psycopg_connect w =
     (case replies w of
        [] \<Rightarrow> (Inr (), w\<lparr>conn := Some False\<rparr>)
      | Ok # rs \<Rightarrow> (Inr (), w\<lparr>conn := Some False, replies := rs\<rparr>)
      | Err # rs \<Rightarrow> (Inl OperationalError, w\<lparr>replies := rs\<rparr>)
      | Lost # rs \<Rightarrow> (Inl OperationalError, w\<lparr>replies := rs\<rparr>))"

text \<open>
  \<^verbatim>\<open>_init_default_rules\<close>: seeds the singleton rule row when the lookup finds none; every
  exception is caught and logged.
\<close>

definition init_default_rules :: "world \<Rightarrow> unit result" where
  "init_default_rules w =
     (case execute select_system_rules w of
        (Inl _, w1) \<Rightarrow> (Inr (), w1)
      | (Inr (Some _), w1) \<Rightarrow> (Inr (), w1)
      | (Inr None, w1) \<Rightarrow>
          (case execute (insert_rules 3 (1 / 5)) w1 of (_, w2) \<Rightarrow> (Inr (), w2)))"

text \<open>
  The part of \<^verbatim>\<open>init\<close> after its connection loop: nothing when the tables were created
  before; otherwise the four DDL statements, the flag, the default rules. A failing DDL
  statement is logged and raised again.
\<close>

definition create_tables :: "world \<Rightarrow> unit result" where
  "create_tables w =
     (if tables_created w then (Inr (), w)
      else
        (case execute ddl w of
           (Inl x, w1) \<Rightarrow> (Inl x, w1)
         | (Inr _, w1) \<Rightarrow>
        (case execute ddl w1 of
           (Inl x, w2) \<Rightarrow> (Inl x, w2)
         | (Inr _, w2) \<Rightarrow>
        (case execute ddl w2 of
           (Inl x, w3) \<Rightarrow> (Inl x, w3)
         | (Inr _, w3) \<Rightarrow>
        (case execute ddl w3 of
           (Inl x, w4) \<Rightarrow> (Inl x, w4)
         | (Inr _, w4) \<Rightarrow> init_default_rules (w4\<lparr>tables_created := True\<rparr>))))))"

text \<open>
  \<^verbatim>\<open>connect(max_retries, initial_delay, max_delay)\<close>: one connection attempt; its failure
  is logged and raised again. After a successful attempt it calls \<^verbatim>\<open>self.init()\<close> and
  catches what that raises. At that call \<^verbatim>\<open>self.conn\<close> is set, so the loop of
  \<^verbatim>\<open>init\<close> is not entered and the call is \<open>create_tables\<close> (lemma \<open>init_connected\<close>
  below). The three parameters are not used by the body.
\<close>

definition connect :: "int \<Rightarrow> rat \<Rightarrow> rat \<Rightarrow> world \<Rightarrow> unit result" where
  "connect max_retries initial_delay max_delay w =
     (case psycopg_connect w of
        (Inl x, w1) \<Rightarrow> (Inl x, w1)
      | (Inr _, w1) \<Rightarrow> (case create_tables w1 of (_, w2) \<Rightarrow> (Inr (), w2)))"

text \<open>
  The loop of \<^verbatim>\<open>init\<close>: \<^verbatim>\<open>while not self.conn and connection_attempts < max_retries\<close>.
  The first argument is \<^verbatim>\<open>max_retries - connection_attempts\<close>. After a successful
  \<^verbatim>\<open>connect\<close> the connection is set and the loop ends; after a failed one it sleeps and
  goes on while attempts remain, and raises the failure otherwise.
\<close>

fun init_loop :: "nat \<Rightarrow> rat \<Rightarrow> rat \<Rightarrow> world \<Rightarrow> unit result" where
  "init_loop 0 connection_delay max_delay w = (Inr (), w)"
| "init_loop (Suc k) connection_delay max_delay w =
     (if conn w \<noteq> None then (Inr (), w)
      else
        (case connect 30 1 10 w of
           (Inr _, w1) \<Rightarrow> (Inr (), w1)
         | (Inl x, w1) \<Rightarrow>
             if 0 < k
             then init_loop k (min max_delay (connection_delay * (3 / 2))) max_delay
                    (w1\<lparr>slept := slept w1 @ [connection_delay]\<rparr>)
             else (Inl x, w1)))"

definition init :: "int \<Rightarrow> rat \<Rightarrow> rat \<Rightarrow> world \<Rightarrow> unit result" where
  "init max_retries initial_delay max_delay w =
     (case init_loop (nat max_retries) initial_delay max_delay w of
        (Inl x, w1) \<Rightarrow> (Inl x, w1)
      | (Inr _, w1) \<Rightarrow> create_tables w1)"

text \<open>
  \<^verbatim>\<open>await_up\<close>: at most \<^verbatim>\<open>max_retries\<close> probes; after a failed probe it sleeps and, when
  the connection is closed, tries to connect again, ignoring a failure of that.
\<close>

fun await_up_loop :: "nat \<Rightarrow> rat \<Rightarrow> rat \<Rightarrow> world \<Rightarrow> unit result" where
  "await_up_loop 0 delay max_delay w = (Inl NotAvailable, w)"
| "await_up_loop (Suc k) delay max_delay w =
     (case execute select_1 w of
        (Inr _, w1) \<Rightarrow> (Inr (), w1\<lparr>is_query_service_ready := True\<rparr>)
      | (Inl _, w1) \<Rightarrow>
          (let w2 = w1\<lparr>slept := slept w1 @ [delay]\<rparr>;
               w3 = (if conn w2 = Some True then snd (connect 30 1 10 w2) else w2)
           in await_up_loop k (min max_delay (delay * (3 / 2))) max_delay w3))"

definition await_up :: "int \<Rightarrow> rat \<Rightarrow> rat \<Rightarrow> world \<Rightarrow> unit result" where
  "await_up max_retries initial_delay max_delay w =
     (if is_query_service_ready w then (Inr (), w)
      else
        (case (if conn w = None then connect 30 1 10 w else (Inr (), w)) of
           (Inl x, w1) \<Rightarrow> (Inl x, w1)
         | (Inr _, w1) \<Rightarrow> await_up_loop (nat max_retries) initial_delay max_delay w1))"

text \<open>
  The first statement of every operation:
  \<^verbatim>\<open>if not self.conn or self.conn.closed: self.connect()\<close>. It stands before the
  operation's \<^verbatim>\<open>try\<close>, so what \<^verbatim>\<open>connect\<close> raises leaves the operation.
\<close>

definition ensure_connected :: "world \<Rightarrow> unit result" where
  "ensure_connected w =
     (if conn w = None \<or> conn w = Some True then connect 30 1 10 w else (Inr (), w))"

subsection \<open>Employees\<close>

text \<open>\<^verbatim>\<open>known_absences or []\<close> and \<^verbatim>\<open>metadata or {}\<close>.\<close>

definition or_empty :: "'a list option \<Rightarrow> 'a list" where
  "or_empty x = (case x of None \<Rightarrow> [] | Some l \<Rightarrow> l)"

definition create_employee ::
  "string \<Rightarrow> string \<Rightarrow> string list option \<Rightarrow> (string \<times> string) list option \<Rightarrow>
   world \<Rightarrow> string result" where
  "create_employee n e ka md w =
     (case ensure_connected w of
        (Inl x, w1) \<Rightarrow> (Inl x, w1)
      | (Inr _, w1) \<Rightarrow>
          (case execute (insert_employee e n (or_empty ka) (or_empty md)) w1 of
             (Inl x, w2) \<Rightarrow> (Inl x, w2)
           | (Inr _, w2) \<Rightarrow> (Inr e, w2)))"

text \<open>\<^verbatim>\<open>get_employee\<close>: a failing lookup is logged and answered with \<^verbatim>\<open>None\<close>.\<close>

definition get_employee :: "string \<Rightarrow> world \<Rightarrow> employee option result" where
  "get_employee e w =
     (case ensure_connected w of
        (Inl x, w1) \<Rightarrow> (Inl x, w1)
      | (Inr _, w1) \<Rightarrow>
          (case execute (select_employee e) w1 of
             (Inl _, w2) \<Rightarrow> (Inr None, w2)
           | (Inr r, w2) \<Rightarrow> (Inr r, w2)))"

definition get_employees :: "world \<Rightarrow> employee list result" where
  "get_employees w =
     (case ensure_connected w of
        (Inl x, w1) \<Rightarrow> (Inl x, w1)
      | (Inr _, w1) \<Rightarrow>
          (case await_up 30 1 10 w1 of
             (Inl x, w2) \<Rightarrow> (Inl x, w2)
           | (Inr _, w2) \<Rightarrow> execute select_employees w2))"

text \<open>
  The \<^verbatim>\<open>updates\<close> dictionary of \<^verbatim>\<open>update_employee\<close>, for the four keys the method
  reads back from the merged record; \<open>None\<close> is a key the dictionary does not have.
  Other keys are merged into the local copy and never written.
\<close>

record employee_updates =
  upd_name :: "string option"
  upd_first_line_support_count :: "int option"
  upd_known_absences :: "string list option"
  upd_metadata :: "(string \<times> string) list option"

text \<open>\<^verbatim>\<open>for key, value in updates.items(): employee[key] = value\<close>.\<close>

definition merge_updates :: "employee_updates \<Rightarrow> employee \<Rightarrow> employee" where
  "merge_updates u r =
     r\<lparr>name := (case upd_name u of None \<Rightarrow> name r | Some v \<Rightarrow> v),
       first_line_support_count :=
         (case upd_first_line_support_count u of
            None \<Rightarrow> first_line_support_count r | Some v \<Rightarrow> v),
       known_absences :=
         (case upd_known_absences u of None \<Rightarrow> known_absences r | Some v \<Rightarrow> v),
       metadata := (case upd_metadata u of None \<Rightarrow> metadata r | Some v \<Rightarrow> v)\<rparr>"

text \<open>
  \<^verbatim>\<open>update_employee\<close>: everything after the reconnection is inside one \<^verbatim>\<open>try\<close> whose
  handler logs and returns \<^verbatim>\<open>False\<close>.
\<close>

definition update_employee :: "string \<Rightarrow> employee_updates \<Rightarrow> world \<Rightarrow> bool result" where
  "update_employee e u w =
     (case ensure_connected w of
        (Inl x, w1) \<Rightarrow> (Inl x, w1)
      | (Inr _, w1) \<Rightarrow>
          (case get_employee e w1 of
             (Inl _, w2) \<Rightarrow> (Inr False, w2)
           | (Inr None, w2) \<Rightarrow> (Inr False, w2)
           | (Inr (Some r), w2) \<Rightarrow>
               (let m = merge_updates u r in
                case execute (update_employee_row e (name m) (first_line_support_count m)
                                (known_absences m) (metadata m)) w2 of
                  (Inl _, w3) \<Rightarrow> (Inr False, w3)
                | (Inr _, w3) \<Rightarrow> (Inr True, w3))))"

text \<open>
  \<^verbatim>\<open>delete_employee\<close>: the dates of the dependent schedules are read, the dependent
  schedules are deleted when there are any, then the employee row is deleted. The same
  handler: log and return \<^verbatim>\<open>False\<close>.
\<close>

definition delete_employee :: "string \<Rightarrow> world \<Rightarrow> bool result" where
  "delete_employee e w =
     (case ensure_connected w of
        (Inl x, w1) \<Rightarrow> (Inl x, w1)
      | (Inr _, w1) \<Rightarrow>
          (case get_employee e w1 of
             (Inl _, w2) \<Rightarrow> (Inr False, w2)
           | (Inr None, w2) \<Rightarrow> (Inr False, w2)
           | (Inr (Some _), w2) \<Rightarrow>
               (case execute (select_dates_of e) w2 of
                  (Inl _, w3) \<Rightarrow> (Inr False, w3)
                | (Inr affected_schedules, w3) \<Rightarrow>
                    (case (if affected_schedules \<noteq> []
                           then execute (delete_schedules_of e) w3 else (Inr (), w3)) of
                       (Inl _, w4) \<Rightarrow> (Inr False, w4)
                     | (Inr _, w4) \<Rightarrow>
                         (case execute (delete_employee_row e) w4 of
                            (Inl _, w5) \<Rightarrow> (Inr False, w5)
                          | (Inr rows_deleted, w5) \<Rightarrow> (Inr (0 < rows_deleted), w5))))))"

subsection \<open>Schedules and the count reconciliation\<close>

text \<open>
  The loop of \<^verbatim>\<open>_update_employee_counts\<close> over the fetched pairs: one \<^verbatim>\<open>UPDATE\<close> each.
\<close>

fun write_counts :: "(string \<times> int) list \<Rightarrow> world \<Rightarrow> unit result" where
  "write_counts [] w = (Inr (), w)"
| "write_counts ((emp_id, c) # gs) w =
     (case execute (set_count c emp_id) w of
        (Inl x, w1) \<Rightarrow> (Inl x, w1)
      | (Inr _, w1) \<Rightarrow> write_counts gs w1)"

text \<open>
  \<^verbatim>\<open>_update_employee_counts\<close>: the reconnection stands before the \<^verbatim>\<open>try\<close>; the handler
  of the \<^verbatim>\<open>try\<close> logs the exception and the method returns normally.
\<close>

definition update_employee_counts :: "world \<Rightarrow> unit result" where
  "update_employee_counts w =
     (case ensure_connected w of
        (Inl x, w1) \<Rightarrow> (Inl x, w1)
      | (Inr _, w1) \<Rightarrow>
          (case execute reset_counts w1 of
             (Inl _, w2) \<Rightarrow> (Inr (), w2)
           | (Inr _, w2) \<Rightarrow>
               (case execute count_schedules w2 of
                  (Inl _, w3) \<Rightarrow> (Inr (), w3)
                | (Inr employee_counts, w3) \<Rightarrow>
                    (case write_counts employee_counts w3 of (_, w4) \<Rightarrow> (Inr (), w4)))))"

text \<open>\<^verbatim>\<open>create_schedule\<close>: the handler logs and raises again.\<close>

definition create_schedule :: "string \<Rightarrow> string \<Rightarrow> world \<Rightarrow> string result" where
  "create_schedule date_str e w =
     (case ensure_connected w of
        (Inl x, w1) \<Rightarrow> (Inl x, w1)
      | (Inr _, w1) \<Rightarrow>
          (case execute (insert_schedule date_str e) w1 of
             (Inl x, w2) \<Rightarrow> (Inl x, w2)
           | (Inr _, w2) \<Rightarrow>
               (case update_employee_counts w2 of
                  (Inl x, w3) \<Rightarrow> (Inl x, w3)
                | (Inr _, w3) \<Rightarrow> (Inr date_str, w3))))"

definition get_schedule :: "string \<Rightarrow> world \<Rightarrow> schedule option result" where
  "get_schedule date_str w =
     (case ensure_connected w of
        (Inl x, w1) \<Rightarrow> (Inl x, w1)
      | (Inr _, w1) \<Rightarrow>
          (case execute (select_schedule date_str) w1 of
             (Inl _, w2) \<Rightarrow> (Inr None, w2)
           | (Inr r, w2) \<Rightarrow> (Inr r, w2)))"

definition get_schedules ::
  "string option \<Rightarrow> string option \<Rightarrow> world \<Rightarrow> schedule list result" where
  "get_schedules start_date end_date w =
     (case ensure_connected w of
        (Inl x, w1) \<Rightarrow> (Inl x, w1)
      | (Inr _, w1) \<Rightarrow>
          (case await_up 30 1 10 w1 of
             (Inl x, w2) \<Rightarrow> (Inl x, w2)
           | (Inr _, w2) \<Rightarrow> execute (select_schedules start_date end_date) w2))"

text \<open>\<^verbatim>\<open>update_schedule\<close> and \<^verbatim>\<open>delete_schedule\<close>: the handler logs and returns \<^verbatim>\<open>False\<close>.\<close>

definition update_schedule :: "string \<Rightarrow> string \<Rightarrow> world \<Rightarrow> bool result" where
  "update_schedule date_str e w =
     (case ensure_connected w of
        (Inl x, w1) \<Rightarrow> (Inl x, w1)
      | (Inr _, w1) \<Rightarrow>
          (case get_schedule date_str w1 of
             (Inl _, w2) \<Rightarrow> (Inr False, w2)
           | (Inr None, w2) \<Rightarrow> (Inr False, w2)
           | (Inr (Some _), w2) \<Rightarrow>
               (case execute (update_schedule_row date_str e) w2 of
                  (Inl _, w3) \<Rightarrow> (Inr False, w3)
                | (Inr rows_updated, w3) \<Rightarrow>
                    if 0 < rows_updated
                    then (case update_employee_counts w3 of
                            (Inl _, w4) \<Rightarrow> (Inr False, w4)
                          | (Inr _, w4) \<Rightarrow> (Inr True, w4))
                    else (Inr False, w3))))"

definition delete_schedule :: "string \<Rightarrow> world \<Rightarrow> bool result" where
  "delete_schedule date_str w =
     (case ensure_connected w of
        (Inl x, w1) \<Rightarrow> (Inl x, w1)
      | (Inr _, w1) \<Rightarrow>
          (case get_schedule date_str w1 of
             (Inl _, w2) \<Rightarrow> (Inr False, w2)
           | (Inr None, w2) \<Rightarrow> (Inr False, w2)
           | (Inr (Some _), w2) \<Rightarrow>
               (case execute (delete_schedule_row date_str) w2 of
                  (Inl _, w3) \<Rightarrow> (Inr False, w3)
                | (Inr rows_deleted, w3) \<Rightarrow>
                    if 0 < rows_deleted
                    then (case update_employee_counts w3 of
                            (Inl _, w4) \<Rightarrow> (Inr False, w4)
                          | (Inr _, w4) \<Rightarrow> (Inr True, w4))
                    else (Inr False, w3))))"

subsection \<open>Rules\<close>





subsection \<open>The bootstrap of main.py\<close>

text \<open>
  A calendar day is the number of days since the reference date 2024-01-01 of
  \<^verbatim>\<open>init_default_data\<close>, so \<^verbatim>\<open>(check_date - reference_date).days\<close> is the day itself.
  \<open>strftime\<close> is \<^verbatim>\<open>strftime("%Y-%m-%d")\<close> in the proleptic Gregorian calendar, for the
  years of four digits.
\<close>

definition civil :: "int \<Rightarrow> int \<times> int \<times> int" where
  "civil n =
     (let z = n + 739191;
          era = z div 146097;
          doe = z mod 146097;
          yoe = (doe - doe div 1460 + doe div 36524 - doe div 146096) div 365;
          doy = doe - (365 * yoe + yoe div 4 - yoe div 100);
          mp = (5 * doy + 2) div 153;
          d = doy - (153 * mp + 2) div 5 + 1;
          m = (if mp < 10 then mp + 3 else mp - 9);
          y = yoe + era * 400 + (if m \<le> 2 then 1 else 0)
      in (y, m, d))"

definition digit :: "int \<Rightarrow> char" where
  "digit k = ''0123456789'' ! nat (k mod 10)"

definition strftime :: "int \<Rightarrow> string" where
  "strftime n =
     (case civil n of
        (y, m, d) \<Rightarrow>
          [digit (y div 1000), digit (y div 100), digit (y div 10), digit y, CHR ''-'',
           digit (m div 10), digit m, CHR ''-'', digit (d div 10), digit d])"

text \<open>The entries of \<^verbatim>\<open>default_employees\<close>, with the three keys the dictionaries have.\<close>

record default_employee =
  default_name :: string
  default_number :: string
  default_absences :: "string list"

definition absence_patterns :: "(string \<times> int) list" where
  "absence_patterns = [(''EMP001'', 3), (''EMP002'', 5), (''EMP004'', 7)]"

text \<open>The absences of the next 30 days: every day that is a multiple of the pattern.\<close>

definition generate_absences :: "int \<Rightarrow> int \<Rightarrow> string list" where
  "generate_absences today pattern_days =
     map (\<lambda>i. strftime (today + int i))
       (filter (\<lambda>i. (today + int i) mod pattern_days = 0) [0..<30])"

definition default_employees :: "int \<Rightarrow> default_employee list" where
  "default_employees today =
     map (\<lambda>(n, e).
            \<lparr>default_name = n, default_number = e,
             default_absences =
               (case map_of absence_patterns e of
                  None \<Rightarrow> []
                | Some pattern_days \<Rightarrow> generate_absences today pattern_days)\<rparr>)
       [(''Lars Larsson'', ''EMP001''),
        (''Dagobert Dagobertsson'', ''EMP002''),
        (''Karl-Gustav Karlgustavsson'', ''EMP003''),
        (''Kerstin Kerstinsdotter'', ''EMP004''),
        (''Maj-Britt Majbrittdotter'', ''EMP005'')]"

text \<open>The two loops over \<^verbatim>\<open>default_employees\<close>; each body catches and logs every exception.\<close>

fun create_defaults :: "default_employee list \<Rightarrow> world \<Rightarrow> unit result" where
  "create_defaults [] w = (Inr (), w)"
| "create_defaults (emp # emps) w =
     (case create_employee (default_name emp) (default_number emp)
             (Some (default_absences emp)) None w of
        (_, w1) \<Rightarrow> create_defaults emps w1)"

fun update_defaults :: "default_employee list \<Rightarrow> world \<Rightarrow> unit result" where
  "update_defaults [] w = (Inr (), w)"
| "update_defaults (emp # emps) w =
     (case get_employee (default_number emp) w of
        (Inl _, w1) \<Rightarrow> update_defaults emps w1
      | (Inr None, w1) \<Rightarrow> update_defaults emps w1
      | (Inr (Some _), w1) \<Rightarrow>
          (case update_employee (default_number emp)
                  \<lparr>upd_name = None, upd_first_line_support_count = None,
                   upd_known_absences = Some (default_absences emp),
                   upd_metadata = None\<rparr> w1 of
             (_, w2) \<Rightarrow> update_defaults emps w2))"

text \<open>
  \<^verbatim>\<open>[e for e in default_employees if date_str not in e["known_absences"]]\<close> and the
  employee number the loop body picks for the day at offset \<open>i\<close>.
\<close>

definition available_employees :: "int \<Rightarrow> string \<Rightarrow> default_employee list" where
  "available_employees today date_str =
     filter (\<lambda>e. date_str \<notin> set (default_absences e)) (default_employees today)"

definition pick_employee :: "int \<Rightarrow> nat \<Rightarrow> string" where
  "pick_employee today i =
     (let date_str = strftime (today + int i);
          available = available_employees today date_str
      in if available \<noteq> []
         then default_number (available ! (i mod length available))
         else default_number
                (default_employees today ! (i mod length (default_employees today))))"

text \<open>
  The body of the front-fill loop for the day at offset \<open>i\<close>. The lookup stands outside
  the \<^verbatim>\<open>try\<close>; what \<^verbatim>\<open>create_schedule\<close> raises is caught and logged.
\<close>

definition fill_day :: "int \<Rightarrow> nat \<Rightarrow> world \<Rightarrow> unit result" where
  "fill_day today i w =
     (case get_schedule (strftime (today + int i)) w of
        (Inl x, w1) \<Rightarrow> (Inl x, w1)
      | (Inr (Some _), w1) \<Rightarrow> (Inr (), w1)
      | (Inr None, w1) \<Rightarrow>
          (case create_schedule (strftime (today + int i)) (pick_employee today i) w1 of
             (_, w2) \<Rightarrow> (Inr (), w2)))"

fun front_fill :: "int \<Rightarrow> nat list \<Rightarrow> world \<Rightarrow> unit result" where
  "front_fill today [] w = (Inr (), w)"
| "front_fill today (i # js) w =
     (case fill_day today i w of
        (Inl x, w1) \<Rightarrow> (Inl x, w1)
      | (Inr _, w1) \<Rightarrow> front_fill today js w1)"

definition init_default_data :: "int \<Rightarrow> world \<Rightarrow> unit result" where
  "init_default_data today w =
     (case get_employees w of
        (Inl x, w1) \<Rightarrow> (Inl x, w1)
      | (Inr emps, w1) \<Rightarrow>
          (case (if emps = [] then create_defaults (default_employees today) w1
                 else update_defaults (default_employees today) w1) of
             (_, w2) \<Rightarrow> front_fill today [0..<7] w2))"

section \<open>Properties\<close>

subsection \<open>Predicates of the statements below\<close>

text \<open>
  The duty-count invariant: every employee row's \<^verbatim>\<open>first_line_support_count\<close> is the
  number of schedule rows whose \<^verbatim>\<open>first_line_support\<close> is that row's employee number.
\<close>

definition counts_ok :: "db \<Rightarrow> bool" where
  "counts_ok d =
     (\<forall>r \<in> set (employees d).
        first_line_support_count r =
          int (length (filter (\<lambda>s. first_line_support s = employee_number r) (schedules d))))"

text \<open>No coming round trip to the server fails.\<close>

definition all_ok :: "world \<Rightarrow> bool" where
  "all_ok w = (\<forall>r \<in> set (replies w). r = Ok)"

text \<open>The employee and schedule tables of two worlds are the same.\<close>

definition same_rows :: "world \<Rightarrow> world \<Rightarrow> bool" where
  "same_rows w w' =
     (employees (store w') = employees (store w) \<and> schedules (store w') = schedules (store w))"


text \<open>The rows of an employee number, and of a date.\<close>

definition rows_of :: "string \<Rightarrow> db \<Rightarrow> employee list" where
  "rows_of e d = filter (\<lambda>r. employee_number r = e) (employees d)"

definition schedules_on :: "string \<Rightarrow> db \<Rightarrow> schedule list" where
  "schedules_on date_str d = filter (\<lambda>s. date s = date_str) (schedules d)"

text \<open>The schedule table after an upsert of the row of a date.\<close>

definition upsert_schedule :: "string \<Rightarrow> string \<Rightarrow> schedule list \<Rightarrow> schedule list" where
  "upsert_schedule date_str e rows =
     (if date_str \<in> set (map date rows)
      then map (\<lambda>s. if date s = date_str then s\<lparr>first_line_support := e\<rparr> else s) rows
      else rows @ [\<lparr>date = date_str, first_line_support = e\<rparr>])"

text \<open>The employee numbers of the employee table.\<close>

definition numbers :: "db \<Rightarrow> string list" where
  "numbers d = map employee_number (employees d)"

text \<open>
  The range of \<^verbatim>\<open>get_schedules\<close>, in the words of the specification: a schedule is in
  range when its date is at or after the start date, when that is given, and at or before
  the end date, when that is given. \<open>in_range_given\<close> takes every string for a given
  bound; \<open>in_range\<close> takes the empty string for an omitted bound.
\<close>

definition in_range_given :: "string option \<Rightarrow> string option \<Rightarrow> schedule \<Rightarrow> bool" where
  "in_range_given start_date end_date s =
     ((case start_date of None \<Rightarrow> True | Some a \<Rightarrow> a \<le> date s) \<and>
      (case end_date of None \<Rightarrow> True | Some b \<Rightarrow> date s \<le> b))"

definition in_range :: "string option \<Rightarrow> string option \<Rightarrow> schedule \<Rightarrow> bool" where
  "in_range start_date end_date s =
     ((case start_date of None \<Rightarrow> True | Some a \<Rightarrow> a = [] \<or> a \<le> date s) \<and>
      (case end_date of None \<Rightarrow> True | Some b \<Rightarrow> b = [] \<or> date s \<le> b))"

text \<open>The employee number has a row, and its stored duty-count is \<open>c\<close>.\<close>

definition has_count :: "string \<Rightarrow> int \<Rightarrow> db \<Rightarrow> bool" where
  "has_count e c d =
     (rows_of e d \<noteq> [] \<and> (\<forall>r \<in> set (rows_of e d). first_line_support_count r = c))"

text \<open>A client with an open connection whose coming round trips all succeed.\<close>

definition healthy :: "world \<Rightarrow> bool" where
  "healthy w = (conn w = Some False \<and> all_ok w)"

subsection \<open>Concrete worlds\<close>

definition lars :: employee where
  "lars = \<lparr>employee_number = ''EMP001'', name = ''Lars Larsson'', first_line_support_count = 0,
           known_absences = [], metadata = []\<rparr>"

definition dagobert :: employee where
  "dagobert = \<lparr>employee_number = ''EMP002'', name = ''Dagobert Dagobertsson'',
               first_line_support_count = 0, known_absences = [], metadata = []\<rparr>"

text \<open>A connected client; one employee, no schedule.\<close>

definition w_lars :: world where
  "w_lars = \<lparr>conn = Some False, is_query_service_ready = True, tables_created = True,
     store = \<lparr>employees = [lars], schedules = [], rules = []\<rparr>, slept = [], replies = []\<rparr>"

text \<open>
  A connected client; two employees and the schedules of three days, with the counts
  that belong to them.
\<close>

definition w_duty :: world where
  "w_duty = \<lparr>conn = Some False, is_query_service_ready = True, tables_created = True,
     store = \<lparr>employees = [lars\<lparr>first_line_support_count := 1\<rparr>,
                             dagobert\<lparr>first_line_support_count := 2\<rparr>],
              schedules = [\<lparr>date = ''2024-02-02'', first_line_support = ''EMP002''\<rparr>,
                           \<lparr>date = ''2024-02-01'', first_line_support = ''EMP001''\<rparr>,
                           \<lparr>date = ''2024-02-03'', first_line_support = ''EMP002''\<rparr>],
              rules = [\<lparr>rule_id = ''system_rules'', max_days_per_week = 3,
                        preferred_balance = 1 / 5\<rparr>]\<rparr>,
     slept = [], replies = []\<rparr>"

text \<open>A client that has never connected, on an empty database.\<close>

definition w_fresh :: world where
  "w_fresh = \<lparr>conn = None, is_query_service_ready = False, tables_created = False,
     store = \<lparr>employees = [], schedules = [], rules = []\<rparr>, slept = [], replies = []\<rparr>"

text \<open>\<open>w_duty\<close> with a server that answers three round trips and fails the fourth.\<close>

definition w_cut :: world where
  "w_cut = w_duty\<lparr>replies := [Ok, Ok, Ok, Err]\<rparr>"








text \<open>
  A connected client on an empty database, and the world it reaches by creating the
  default employees of 2024-03-01 (day 60) and a schedule of that day for EMP005.
\<close>

definition w_empty :: world where
  "w_empty = \<lparr>conn = Some False, is_query_service_ready = True, tables_created = True,
     store = \<lparr>employees = [], schedules = [], rules = []\<rparr>, slept = [], replies = []\<rparr>"

definition w_boot :: world where
  "w_boot =
     snd (create_schedule ''2024-03-01'' ''EMP005''
            (snd (create_defaults (default_employees 60) w_empty)))"

section \<open>Lemmas\<close>

subsection \<open>One statement\<close>

lemma replies_nil_upd: "replies w = [] \<Longrightarrow> w\<lparr>replies := []\<rparr> = w"
  by (cases w) simp

lemma execute_Inr:
  "execute q w = (Inr v, w') \<Longrightarrow>
     conn w = Some False \<and> conn w' = Some False \<and>
     q (store w) = Inr (v, store w') \<and>
     replies w' = tl (replies w) \<and> (replies w = [] \<or> hd (replies w) = Ok)"
  by (auto simp: execute_def run_def
      split: option.splits bool.splits list.splits reply.splits sum.splits prod.splits)

lemma execute_Inl: "execute q w = (Inl x, w') \<Longrightarrow> store w' = store w"
  by (auto simp: execute_def run_def
      split: option.splits bool.splits list.splits reply.splits sum.splits prod.splits)

lemma execute_store:
  "execute q w = (r, w') \<Longrightarrow>
     store w' = store w \<or> (\<exists>v. r = Inr v \<and> q (store w) = Inr (v, store w'))"
  by (cases r) (auto dest: execute_Inl execute_Inr)


lemma execute_all_ok:
  "all_ok w \<Longrightarrow> conn w = Some False \<Longrightarrow>
     execute q w = run q (w\<lparr>replies := tl (replies w)\<rparr>)"
  by (auto simp: execute_def all_ok_def replies_nil_upd split: list.splits reply.splits)

lemma all_ok_tl: "all_ok w \<Longrightarrow> all_ok (w\<lparr>replies := tl (replies w)\<rparr>)"
  by (cases "replies w") (auto simp: all_ok_def)

lemma healthy_all_ok: "healthy w \<Longrightarrow> all_ok w"
  by (simp add: healthy_def)

lemma execute_healthy:
  assumes "healthy w" "execute q w = (r, w')"
  shows "healthy w' \<and>
         (case q (store w) of
            Inl x \<Rightarrow> r = Inl x \<and> store w' = store w
          | Inr (v, d) \<Rightarrow> r = Inr v \<and> store w' = d)"
proof -
  from assms(1) have c: "conn w = Some False" and a: "all_ok w" by (simp_all add: healthy_def)
  from assms(2) have "run q (w\<lparr>replies := tl (replies w)\<rparr>) = (r, w')"
    by (simp add: execute_all_ok[OF a c])
  with c all_ok_tl[OF a] show ?thesis
    by (auto simp: run_def healthy_def all_ok_def split: sum.splits prod.splits)
qed

lemma execute_same_rows:
  assumes "execute q w = (r, w')"
    and "\<And>d v d'. q d = Inr (v, d') \<Longrightarrow>
           employees d' = employees d \<and> schedules d' = schedules d"
  shows "same_rows w w'"
  using execute_store[OF assms(1)] assms(2) by (auto simp: same_rows_def)

subsection \<open>Connecting changes neither employees nor schedules\<close>

lemma psycopg_connect_store: "psycopg_connect w = (r, w') \<Longrightarrow> store w' = store w"
  by (auto simp: psycopg_connect_def split: list.splits reply.splits)

lemma init_default_rules_same_rows: "init_default_rules w = (r, w') \<Longrightarrow> same_rows w w'"
  unfolding init_default_rules_def
  by (auto split: prod.splits sum.splits option.splits if_splits
      dest!: execute_same_rows simp: select_system_rules_def insert_rules_def same_rows_def)

lemma ddl_store: "execute ddl w = (r, w') \<Longrightarrow> store w' = store w"
  by (drule execute_store) (auto simp: ddl_def)

lemma create_tables_same_rows: "create_tables w = (r, w') \<Longrightarrow> same_rows w w'"
  unfolding create_tables_def
  by (auto split: prod.splits sum.splits if_splits
      dest!: ddl_store init_default_rules_same_rows simp: same_rows_def)

lemma connect_same_rows: "connect a b c w = (r, w') \<Longrightarrow> same_rows w w'"
  unfolding connect_def
  by (auto split: prod.splits sum.splits
      dest!: psycopg_connect_store create_tables_same_rows simp: same_rows_def)

lemma ensure_connected_same_rows: "ensure_connected w = (r, w') \<Longrightarrow> same_rows w w'"
  unfolding ensure_connected_def
  by (auto split: if_splits dest!: connect_same_rows simp: same_rows_def)

lemma ensure_connected_open: "conn w = Some False \<Longrightarrow> ensure_connected w = (Inr (), w)"
  by (simp add: ensure_connected_def)

subsection \<open>When no round trip fails\<close>

lemma psycopg_connect_ok:
  "all_ok w \<Longrightarrow> psycopg_connect w = (r, w') \<Longrightarrow>
     r = Inr () \<and> healthy w' \<and> store w' = store w"
  by (auto simp: psycopg_connect_def healthy_def all_ok_def split: list.splits reply.splits)

lemma init_default_rules_healthy:
  assumes "healthy w" "init_default_rules w = (r, w')"
  shows "healthy w' \<and> r = Inr ()"
proof -
  obtain r1 w1 where e1: "execute select_system_rules w = (r1, w1)"
    by (cases "execute select_system_rules w")
  have h1: "healthy w1" using execute_healthy[OF assms(1) e1] by simp
  obtain r2 w2 where e2: "execute (insert_rules 3 (1 / 5)) w1 = (r2, w2)"
    by (cases "execute (insert_rules 3 (1 / 5)) w1")
  have h2: "healthy w2" using execute_healthy[OF h1 e2] by simp
  from assms(2) e1 e2 h1 h2 show ?thesis
    by (auto simp: init_default_rules_def split: sum.splits option.splits)
qed

lemma ddl_healthy:
  assumes "healthy w" "execute ddl w = (r, w')"
  shows "healthy w' \<and> r = Inr ()"
  using execute_healthy[OF assms] by (simp add: ddl_def)

lemma create_tables_healthy:
  assumes "healthy w" "create_tables w = (r, w')"
  shows "healthy w' \<and> r = Inr ()"
proof (cases "tables_created w")
  case True
  with assms show ?thesis by (simp add: create_tables_def)
next
  case False
  obtain r1 w1 where e1: "execute ddl w = (r1, w1)" by (cases "execute ddl w")
  note a1 = ddl_healthy[OF assms(1) e1]
  obtain r2 w2 where e2: "execute ddl w1 = (r2, w2)" by (cases "execute ddl w1")
  note a2 = ddl_healthy[OF conjunct1[OF a1] e2]
  obtain r3 w3 where e3: "execute ddl w2 = (r3, w3)" by (cases "execute ddl w2")
  note a3 = ddl_healthy[OF conjunct1[OF a2] e3]
  obtain r4 w4 where e4: "execute ddl w3 = (r4, w4)" by (cases "execute ddl w3")
  note a4 = ddl_healthy[OF conjunct1[OF a3] e4]
  have h5: "healthy (w4\<lparr>tables_created := True\<rparr>)"
    using a4 by (simp add: healthy_def all_ok_def)
  from assms(2) False e1 e2 e3 e4 a1 a2 a3 a4
  have "init_default_rules (w4\<lparr>tables_created := True\<rparr>) = (r, w')"
    by (simp add: create_tables_def)
  from init_default_rules_healthy[OF h5 this] show ?thesis .
qed

lemma connect_ok:
  assumes "all_ok w" "connect a b c w = (r, w')"
  shows "healthy w' \<and> r = Inr ()"
proof -
  obtain r1 w1 where e1: "psycopg_connect w = (r1, w1)" by (cases "psycopg_connect w")
  note a1 = psycopg_connect_ok[OF assms(1) e1]
  obtain r2 w2 where e2: "create_tables w1 = (r2, w2)" by (cases "create_tables w1")
  have "healthy w2" using create_tables_healthy[OF _ e2] a1 by simp
  with assms(2) e1 e2 a1 show ?thesis by (simp add: connect_def)
qed

lemma ensure_connected_ok:
  assumes "all_ok w" "ensure_connected w = (r, w')"
  shows "healthy w' \<and> r = Inr () \<and> same_rows w w'"
proof -
  have "same_rows w w'" using assms(2) by (rule ensure_connected_same_rows)
  moreover have "healthy w' \<and> r = Inr ()"
  proof (cases "conn w = None \<or> conn w = Some True")
    case True
    with assms(2) have "connect 30 1 10 w = (r, w')" by (simp add: ensure_connected_def)
    from connect_ok[OF assms(1) this] show ?thesis .
  next
    case False
    then have "conn w = Some False" by (cases "conn w") auto
    with assms False show ?thesis by (auto simp: ensure_connected_def healthy_def)
  qed
  ultimately show ?thesis by simp
qed

lemma get_schedule_ok:
  assumes "all_ok w" "get_schedule d w = (r, w')"
  shows "healthy w' \<and> same_rows w w' \<and>
         r = Inr (find (\<lambda>s. date s = d) (schedules (store w)))"
proof -
  obtain r1 w1 where e1: "ensure_connected w = (r1, w1)" by (cases "ensure_connected w")
  from ensure_connected_ok[OF assms(1) e1]
  have h1: "healthy w1" and r1: "r1 = Inr ()" and s1: "same_rows w w1" by simp_all
  obtain r2 w2 where e2: "execute (select_schedule d) w1 = (r2, w2)"
    by (cases "execute (select_schedule d) w1")
  from execute_healthy[OF h1 e2] have "healthy w2" "store w2 = store w1"
    "r2 = Inr (find (\<lambda>s. date s = d) (schedules (store w1)))"
    by (simp_all add: select_schedule_def)
  with assms(2) e1 r1 e2 s1 show ?thesis
    by (auto simp: get_schedule_def same_rows_def)
qed

subsection \<open>The reconciliation\<close>

lemma write_counts_healthy:
  "healthy w \<Longrightarrow> write_counts (map (\<lambda>e. (e, f e)) ks) w = (r, w') \<Longrightarrow>
     healthy w' \<and> r = Inr () \<and> schedules (store w') = schedules (store w) \<and>
     employees (store w') =
       map (\<lambda>x. if employee_number x \<in> set ks
                 then x\<lparr>first_line_support_count := f (employee_number x)\<rparr> else x)
           (employees (store w))"
proof (induction ks arbitrary: w)
  case Nil
  then show ?case by (simp add: map_idI)
next
  case (Cons k ks)
  obtain r1 w1 where e1: "execute (set_count (f k) k) w = (r1, w1)"
    by (cases "execute (set_count (f k) k) w")
  from execute_healthy[OF Cons.prems(1) e1]
  have h1: "healthy w1" and r1: "r1 = Inr ()"
    and s1: "store w1 = (store w)\<lparr>employees :=
        map (\<lambda>r. if employee_number r = k then r\<lparr>first_line_support_count := f k\<rparr> else r)
            (employees (store w))\<rparr>"
    by (simp_all add: set_count_def)
  from Cons.prems(2) e1 r1 have "write_counts (map (\<lambda>e. (e, f e)) ks) w1 = (r, w')" by simp
  from Cons.IH[OF h1 this] s1 show ?case by (auto simp: comp_def)
qed

lemma update_employee_counts_ok:
  assumes "all_ok w" "update_employee_counts w = (r, w')"
  shows "healthy w' \<and> r = Inr () \<and> counts_ok (store w') \<and>
         schedules (store w') = schedules (store w) \<and>
         map employee_number (employees (store w')) = map employee_number (employees (store w))"
proof -
  obtain r1 w1 where e1: "ensure_connected w = (r1, w1)" by (cases "ensure_connected w")
  from ensure_connected_ok[OF assms(1) e1]
  have h1: "healthy w1" and r1: "r1 = Inr ()" and s1: "same_rows w w1" by simp_all
  obtain r2 w2 where e2: "execute reset_counts w1 = (r2, w2)"
    by (cases "execute reset_counts w1")
  from execute_healthy[OF h1 e2]
  have h2: "healthy w2" and r2: "r2 = Inr ()"
    and s2: "store w2 = (store w1)\<lparr>employees :=
        map (\<lambda>r. r\<lparr>first_line_support_count := 0\<rparr>) (employees (store w1))\<rparr>"
    by (simp_all add: reset_counts_def)
  obtain r3 w3 where e3: "execute count_schedules w2 = (r3, w3)"
    by (cases "execute count_schedules w2")
  let ?f = "\<lambda>e. int (length (filter (\<lambda>s. first_line_support s = e) (schedules (store w2))))"
  let ?ks = "remdups (map first_line_support (schedules (store w2)))"
  from execute_healthy[OF h2 e3]
  have h3: "healthy w3" and r3: "r3 = Inr (map (\<lambda>e. (e, ?f e)) ?ks)"
    and s3: "store w3 = store w2"
    by (simp_all add: count_schedules_def)
  obtain r4 w4 where e4: "write_counts (map (\<lambda>e. (e, ?f e)) ?ks) w3 = (r4, w4)"
    by (cases "write_counts (map (\<lambda>e. (e, ?f e)) ?ks) w3")
  note a4 = write_counts_healthy[OF h3 e4]
  from assms(2) e1 r1 e2 r2 e3 r3 e4 have w': "w' = w4" and r: "r = Inr ()"
    by (simp_all add: update_employee_counts_def)
  have sch: "schedules (store w4) = schedules (store w)"
    using a4 s3 s2 s1 by (simp add: same_rows_def)
  have emp: "employees (store w4) =
       map (\<lambda>x. if employee_number x \<in> set ?ks
                 then x\<lparr>first_line_support_count := ?f (employee_number x)\<rparr> else x)
           (map (\<lambda>r. r\<lparr>first_line_support_count := 0\<rparr>) (employees (store w)))"
    using a4 s3 s2 s1 by (simp add: same_rows_def)
  have sch2: "schedules (store w2) = schedules (store w)"
    using s2 s1 by (simp add: same_rows_def)
  have "counts_ok (store w4)"
    unfolding counts_ok_def emp sch sch2
    by (auto simp: filter_empty_conv image_iff) metis
  moreover have "map employee_number (employees (store w4)) =
                 map employee_number (employees (store w))"
    unfolding emp by (simp add: comp_def)
  ultimately show ?thesis using a4 w' r sch by simp
qed

subsection \<open>What an operation can do to the tables, whatever the server answers\<close>

lemma execute_effect:
  "execute q w = (r, w') \<Longrightarrow>
     (\<exists>x. r = Inl x \<and> store w' = store w) \<or>
     (\<exists>v d. r = Inr v \<and> q (store w) = Inr (v, d) \<and> store w' = d)"
  by (cases r) (auto dest: execute_Inl execute_Inr)

lemma set_count_frame:
  "execute (set_count c e) w = (r, w') \<Longrightarrow>
     schedules (store w') = schedules (store w) \<and> rules (store w') = rules (store w) \<and>
     map employee_number (employees (store w')) = map employee_number (employees (store w))"
  by (drule execute_effect) (auto simp: set_count_def comp_def)

lemma write_counts_frame:
  "write_counts gs w = (r, w') \<Longrightarrow>
     schedules (store w') = schedules (store w) \<and> rules (store w') = rules (store w) \<and>
     map employee_number (employees (store w')) = map employee_number (employees (store w))"
proof (induction gs arbitrary: w)
  case Nil
  then show ?case by simp
next
  case (Cons g gs)
  obtain e c where g: "g = (e, c)" by (cases g)
  obtain r1 w1 where e1: "execute (set_count c e) w = (r1, w1)"
    by (cases "execute (set_count c e) w")
  note f1 = set_count_frame[OF e1]
  show ?case
  proof (cases r1)
    case (Inl x)
    with Cons.prems g e1 f1 show ?thesis by simp
  next
    case (Inr v)
    with Cons.prems g e1 have "write_counts gs w1 = (r, w')" by simp
    from Cons.IH[OF this] f1 show ?thesis by simp
  qed
qed

lemma update_employee_counts_frame:
  assumes "update_employee_counts w = (r, w')"
  shows "schedules (store w') = schedules (store w) \<and>
         map employee_number (employees (store w')) = map employee_number (employees (store w))"
proof -
  obtain r1 w1 where e1: "ensure_connected w = (r1, w1)" by (cases "ensure_connected w")
  note f1 = ensure_connected_same_rows[OF e1, unfolded same_rows_def]
  obtain r2 w2 where e2: "execute reset_counts w1 = (r2, w2)"
    by (cases "execute reset_counts w1")
  have f2: "schedules (store w2) = schedules (store w1) \<and>
     map employee_number (employees (store w2)) = map employee_number (employees (store w1))"
    using execute_effect[OF e2] by (auto simp: reset_counts_def comp_def)
  obtain r3 w3 where e3: "execute count_schedules w2 = (r3, w3)"
    by (cases "execute count_schedules w2")
  have f3: "store w3 = store w2"
    using execute_effect[OF e3] by (auto simp: count_schedules_def)
  show ?thesis
  proof (cases r1)
    case (Inl x)
    with assms e1 f1 show ?thesis by (simp add: update_employee_counts_def)
  next
    case r1: (Inr v1)
    show ?thesis
    proof (cases r2)
      case (Inl x)
      with assms e1 r1 e2 f1 f2 show ?thesis by (simp add: update_employee_counts_def)
    next
      case r2: (Inr v2)
      show ?thesis
      proof (cases r3)
        case (Inl x)
        with assms e1 r1 e2 r2 e3 f1 f2 f3 show ?thesis
          by (simp add: update_employee_counts_def)
      next
        case r3: (Inr gs)
        obtain r4 w4 where e4: "write_counts gs w3 = (r4, w4)" by (cases "write_counts gs w3")
        from assms e1 r1 e2 r2 e3 r3 e4 have "w' = w4"
          by (simp add: update_employee_counts_def)
        with write_counts_frame[OF e4] f1 f2 f3 show ?thesis by simp
      qed
    qed
  qed
qed

lemma get_schedule_outcome:
  assumes "get_schedule d w = (r, w')"
  shows "same_rows w w' \<and>
         (\<forall>v. r = Inr v \<longrightarrow> v = None \<or> v = find (\<lambda>s. date s = d) (schedules (store w)))"
proof -
  obtain r1 w1 where e1: "ensure_connected w = (r1, w1)" by (cases "ensure_connected w")
  note f1 = ensure_connected_same_rows[OF e1, unfolded same_rows_def]
  obtain r2 w2 where e2: "execute (select_schedule d) w1 = (r2, w2)"
    by (cases "execute (select_schedule d) w1")
  have f2: "store w2 = store w1 \<and>
      (\<forall>v. r2 = Inr v \<longrightarrow> v = find (\<lambda>s. date s = d) (schedules (store w1)))"
    using execute_effect[OF e2] by (auto simp: select_schedule_def)
  from assms e1 e2 f1 f2 show ?thesis
    by (auto simp: get_schedule_def same_rows_def split: sum.splits)
qed

lemma get_employee_outcome:
  assumes "get_employee e w = (r, w')"
  shows "same_rows w w' \<and>
         (\<forall>v. r = Inr v \<longrightarrow>
            v = None \<or> v = find (\<lambda>r. employee_number r = e) (employees (store w)))"
proof -
  obtain r1 w1 where e1: "ensure_connected w = (r1, w1)" by (cases "ensure_connected w")
  note f1 = ensure_connected_same_rows[OF e1, unfolded same_rows_def]
  obtain r2 w2 where e2: "execute (select_employee e) w1 = (r2, w2)"
    by (cases "execute (select_employee e) w1")
  have f2: "store w2 = store w1 \<and>
      (\<forall>v. r2 = Inr v \<longrightarrow> v = find (\<lambda>r. employee_number r = e) (employees (store w1)))"
    using execute_effect[OF e2] by (auto simp: select_employee_def)
  from assms e1 e2 f1 f2 show ?thesis
    by (auto simp: get_employee_def same_rows_def split: sum.splits)
qed

lemma insert_schedule_Inr:
  "insert_schedule d e D = Inr (v, D') \<longleftrightarrow>
     varchar 10 d \<and> varchar 36 e \<and> e \<in> set (numbers D) \<and>
     D' = D\<lparr>schedules := upsert_schedule d e (schedules D)\<rparr>"
  by (auto simp: insert_schedule_def upsert_schedule_def numbers_def)

lemma create_schedule_outcome:
  assumes "create_schedule d e w = (r, w')"
  shows "map employee_number (employees (store w')) = map employee_number (employees (store w)) \<and>
         ((same_rows w w' \<and> (\<forall>v. r \<noteq> Inr v)) \<or>
          (e \<in> set (numbers (store w)) \<and>
           schedules (store w') = upsert_schedule d e (schedules (store w)))) \<and>
         (\<forall>v. r = Inr v \<longrightarrow> v = d)"
proof -
  obtain r1 w1 where e1: "ensure_connected w = (r1, w1)" by (cases "ensure_connected w")
  note f1 = ensure_connected_same_rows[OF e1, unfolded same_rows_def]
  obtain r2 w2 where e2: "execute (insert_schedule d e) w1 = (r2, w2)"
    by (cases "execute (insert_schedule d e) w1")
  have f2: "(store w2 = store w1 \<and> (\<forall>v. r2 \<noteq> Inr v)) \<or>
            ((\<exists>v. r2 = Inr v) \<and>
             e \<in> set (numbers (store w1)) \<and> employees (store w2) = employees (store w1) \<and>
             schedules (store w2) = upsert_schedule d e (schedules (store w1)))"
    using execute_effect[OF e2] by (auto simp: insert_schedule_Inr)
  obtain r3 w3 where e3: "update_employee_counts w2 = (r3, w3)"
    by (cases "update_employee_counts w2")
  note f3 = update_employee_counts_frame[OF e3]
  show ?thesis
  proof (cases r1)
    case (Inl x)
    with assms e1 f1 show ?thesis by (auto simp: create_schedule_def same_rows_def)
  next
    case r1: (Inr v1)
    show ?thesis
    proof (cases r2)
      case (Inl x)
      with assms e1 r1 e2 f1 f2 show ?thesis by (auto simp: create_schedule_def same_rows_def)
    next
      case r2: (Inr v2)
      with assms e1 r1 e2 e3 have "w' = w3" "\<forall>v. r = Inr v \<longrightarrow> v = d"
        by (auto simp: create_schedule_def split: sum.splits)
      with f1 f2 f3 r2 show ?thesis by (auto simp: numbers_def)
    qed
  qed
qed


subsection \<open>Deleting an employee\<close>

lemma execute_fields:
  "execute q w = (r, w') \<Longrightarrow>
     (\<exists>x. r = Inl x \<and> store w' = store w) \<or>
     (\<exists>v d. r = Inr v \<and> q (store w) = Inr (v, d) \<and>
        employees (store w') = employees d \<and> schedules (store w') = schedules d \<and>
        rules (store w') = rules d)"
  by (drule execute_effect) auto

lemma select_dates_of_step:
  "execute (select_dates_of e) w = (r, w') \<Longrightarrow>
     store w' = store w \<and>
     (\<forall>v. r = Inr v \<longrightarrow> v = map date (filter (\<lambda>s. first_line_support s = e) (schedules (store w))))"
  by (drule execute_effect) (auto simp: select_dates_of_def)

lemma delete_schedules_of_step:
  "execute (delete_schedules_of e) w = (r, w') \<Longrightarrow>
     employees (store w') = employees (store w) \<and>
     (((\<exists>x. r = Inl x) \<and> schedules (store w') = schedules (store w)) \<or>
      (r = Inr () \<and>
       schedules (store w') = filter (\<lambda>s. first_line_support s \<noteq> e) (schedules (store w))))"
  by (drule execute_effect) (auto simp: delete_schedules_of_def)

lemma delete_employee_row_step:
  "execute (delete_employee_row e) w = (r, w') \<Longrightarrow>
     schedules (store w') = schedules (store w) \<and>
     (((\<exists>x. r = Inl x) \<and> employees (store w') = employees (store w)) \<or>
      (r = Inr (length (rows_of e (store w))) \<and>
       (rows_of e (store w) = [] \<or> filter (\<lambda>s. first_line_support s = e) (schedules (store w)) = []) \<and>
       employees (store w') = filter (\<lambda>r. employee_number r \<noteq> e) (employees (store w))))"
  by (drule execute_fields)
     (auto simp: delete_employee_row_def rows_of_def filter_empty_conv image_iff
        split: if_splits)

lemma find_filter_Nil: "filter P xs = [] \<Longrightarrow> find P xs = None"
  by (induction xs) (auto split: if_splits)

lemma find_rows_of_Nil:
  "rows_of e d = [] \<Longrightarrow> find (\<lambda>r. employee_number r = e) (employees d) = None"
  by (simp add: rows_of_def find_filter_Nil)

lemma filter_none_id:
  "filter P xs = [] \<Longrightarrow> filter (\<lambda>x. \<not> P x) xs = xs"
  by (induction xs) (auto split: if_splits)

lemma delete_employee_outcome:
  assumes "delete_employee e w = (r, w')"
  shows "(r = Inr True \<longrightarrow>
            rows_of e (store w) \<noteq> [] \<and>
            employees (store w') = filter (\<lambda>r. employee_number r \<noteq> e) (employees (store w)) \<and>
            schedules (store w') = filter (\<lambda>s. first_line_support s \<noteq> e) (schedules (store w))) \<and>
         (r \<noteq> Inr True \<longrightarrow>
            employees (store w') = employees (store w) \<and>
            (schedules (store w') = schedules (store w) \<or>
             rows_of e (store w) \<noteq> [] \<and>
             schedules (store w') = filter (\<lambda>s. first_line_support s \<noteq> e) (schedules (store w))))"
proof -
  obtain r1 w1 where e1: "ensure_connected w = (r1, w1)" by (cases "ensure_connected w")
  note f1 = ensure_connected_same_rows[OF e1, unfolded same_rows_def]
  obtain r2 w2 where e2: "get_employee e w1 = (r2, w2)" by (cases "get_employee e w1")
  note f2 = get_employee_outcome[OF e2, unfolded same_rows_def]
  obtain r3 w3 where e3: "execute (select_dates_of e) w2 = (r3, w3)"
    by (cases "execute (select_dates_of e) w2")
  note f3 = select_dates_of_step[OF e3]
  obtain r4 w4 where e4: "execute (delete_schedules_of e) w3 = (r4, w4)"
    by (cases "execute (delete_schedules_of e) w3")
  note f4 = delete_schedules_of_step[OF e4]
  obtain r5 w5 where e5: "execute (delete_employee_row e) w4 = (r5, w5)"
    by (cases "execute (delete_employee_row e) w4")
  note f5 = delete_employee_row_step[OF e5]
  obtain r6 w6 where e6: "execute (delete_employee_row e) w3 = (r6, w6)"
    by (cases "execute (delete_employee_row e) w3")
  note f6 = delete_employee_row_step[OF e6]
  have rows: "\<And>x. r2 = Inr (Some x) \<Longrightarrow> rows_of e (store w) \<noteq> []"
    using f2 f1 find_rows_of_Nil[of e "store w"] by auto
  have rw: "\<And>d. employees d = employees (store w) \<Longrightarrow> rows_of e d = rows_of e (store w)"
    by (simp add: rows_of_def)
  show ?thesis
    using assms e1 e2 e3 e4 e5 e6 f1 f2 f3 f4 f5 f6 rows
    apply (simp add: delete_employee_def split: sum.splits option.splits if_splits prod.splits)
    apply (auto simp: rows_of_def filter_none_id)
    done
qed


lemma find_filter_Some: "filter P xs \<noteq> [] \<Longrightarrow> \<exists>x. find P xs = Some x"
  by (induction xs) (auto split: if_splits)

lemma get_employee_ok:
  assumes "all_ok w" "get_employee e w = (r, w')"
  shows "healthy w' \<and> same_rows w w' \<and>
         r = Inr (find (\<lambda>r. employee_number r = e) (employees (store w)))"
proof -
  obtain r1 w1 where e1: "ensure_connected w = (r1, w1)" by (cases "ensure_connected w")
  from ensure_connected_ok[OF assms(1) e1]
  have h1: "healthy w1" and r1: "r1 = Inr ()" and s1: "same_rows w w1" by simp_all
  obtain r2 w2 where e2: "execute (select_employee e) w1 = (r2, w2)"
    by (cases "execute (select_employee e) w1")
  from execute_healthy[OF h1 e2] have "healthy w2" "store w2 = store w1"
    "r2 = Inr (find (\<lambda>r. employee_number r = e) (employees (store w1)))"
    by (simp_all add: select_employee_def)
  with assms(2) e1 r1 e2 s1 show ?thesis
    by (auto simp: get_employee_def same_rows_def)
qed

lemma get_employee_returns: "conn w = Some False \<Longrightarrow> \<exists>v w'. get_employee e w = (Inr v, w')"
  by (auto simp: get_employee_def ensure_connected_open split: prod.splits sum.splits)

lemma delete_employee_returns:
  assumes "conn w = Some False"
  shows "\<exists>b w'. delete_employee e w = (Inr b, w')"
  using assms
  by (auto simp: delete_employee_def ensure_connected_open
      split: prod.splits sum.splits option.splits)

lemma delete_employee_healthy:
  assumes "healthy w" "rows_of e (store w) \<noteq> []" "delete_employee e w = (r, w')"
  shows "r = Inr True"
proof -
  from assms(1) have c: "conn w = Some False" and a: "all_ok w" by (simp_all add: healthy_def)
  obtain r2 w2 where e2: "get_employee e w = (r2, w2)" by (cases "get_employee e w")
  from get_employee_ok[OF a e2] have h2: "healthy w2" and s2: "same_rows w w2"
    and r2: "r2 = Inr (find (\<lambda>r. employee_number r = e) (employees (store w)))" by simp_all
  from assms(2) obtain x where x: "find (\<lambda>r. employee_number r = e) (employees (store w)) = Some x"
    using find_filter_Some[of "\<lambda>r. employee_number r = e" "employees (store w)"]
    by (auto simp: rows_of_def)
  obtain r3 w3 where e3: "execute (select_dates_of e) w2 = (r3, w3)"
    by (cases "execute (select_dates_of e) w2")
  from execute_healthy[OF h2 e3] have h3: "healthy w3" and s3: "store w3 = store w2"
    and r3: "r3 = Inr (map date (filter (\<lambda>s. first_line_support s = e) (schedules (store w2))))"
    by (simp_all add: select_dates_of_def)
  define aff where "aff = map date (filter (\<lambda>s. first_line_support s = e) (schedules (store w2)))"
  obtain r4 w4 where e4: "(if aff \<noteq> [] then execute (delete_schedules_of e) w3 else (Inr (), w3)) = (r4, w4)"
    by (cases "if aff \<noteq> [] then execute (delete_schedules_of e) w3 else (Inr (), w3)")
  have 4: "healthy w4 \<and> r4 = Inr () \<and> employees (store w4) = employees (store w) \<and>
           filter (\<lambda>s. first_line_support s = e) (schedules (store w4)) = []"
  proof (cases "aff = []")
    case True
    with e4 h3 s3 s2 show ?thesis by (auto simp: aff_def same_rows_def)
  next
    case False
    with e4 have "execute (delete_schedules_of e) w3 = (r4, w4)" by simp
    from execute_healthy[OF h3 this] s3 s2 show ?thesis
      by (auto simp: delete_schedules_of_def same_rows_def)
  qed
  obtain r5 w5 where e5: "execute (delete_employee_row e) w4 = (r5, w5)"
    by (cases "execute (delete_employee_row e) w4")
  have ne: "e \<notin> set (map first_line_support (schedules (store w4)))"
    using 4 by (auto simp: filter_empty_conv)
  have n: "0 < length (filter (\<lambda>r. employee_number r = e) (employees (store w4)))"
    using 4 assms(2) by (simp add: rows_of_def)
  from execute_healthy[OF conjunct1[OF 4] e5] ne
  have r5: "r5 = Inr (length (filter (\<lambda>r. employee_number r = e) (employees (store w4))))"
    by (simp add: delete_employee_row_def)
  from assms(3) c e2 r2 x e3 r3 e4 4 e5 r5 n show ?thesis
    by (simp add: delete_employee_def ensure_connected_open aff_def)
qed

lemma delete_employee_partial:
  assumes "conn w = Some False"
    and "rows_of e (store w) \<noteq> []"
    and "filter (\<lambda>s. first_line_support s = e) (schedules (store w)) \<noteq> []"
    and "replies w = Ok # Ok # Ok # x # rs" and "x \<noteq> Ok"
    and "delete_employee e w = (r, w')"
  shows "r = Inr False \<and> employees (store w') = employees (store w) \<and>
         schedules (store w') = filter (\<lambda>s. first_line_support s \<noteq> e) (schedules (store w))"
proof -
  from assms(2) obtain y where y: "find (\<lambda>r. employee_number r = e) (employees (store w)) = Some y"
    using find_filter_Some[of "\<lambda>r. employee_number r = e" "employees (store w)"]
    by (auto simp: rows_of_def)
  have g: "get_employee e w = (Inr (Some y), w\<lparr>replies := Ok # Ok # x # rs\<rparr>)"
    using assms(1,4) y
    by (simp add: get_employee_def ensure_connected_open execute_def run_def select_employee_def)
  have s: "execute (select_dates_of e) (w\<lparr>replies := Ok # Ok # x # rs\<rparr>) =
      (Inr (map date (filter (\<lambda>s. first_line_support s = e) (schedules (store w)))),
       w\<lparr>replies := Ok # x # rs\<rparr>)"
    using assms(1) by (simp add: execute_def run_def select_dates_of_def)
  have d: "execute (delete_schedules_of e) (w\<lparr>replies := Ok # x # rs\<rparr>) =
      (Inr (), w\<lparr>replies := x # rs,
                 store := (store w)\<lparr>schedules :=
                    filter (\<lambda>s. first_line_support s \<noteq> e) (schedules (store w))\<rparr>\<rparr>)"
    using assms(1) by (simp add: execute_def run_def delete_schedules_of_def)
  obtain r5 w5 where e5: "execute (delete_employee_row e) (w\<lparr>replies := x # rs,
                 store := (store w)\<lparr>schedules :=
                    filter (\<lambda>s. first_line_support s \<noteq> e) (schedules (store w))\<rparr>\<rparr>) = (r5, w5)"
    by (cases "execute (delete_employee_row e) (w\<lparr>replies := x # rs,
                 store := (store w)\<lparr>schedules :=
                    filter (\<lambda>s. first_line_support s \<noteq> e) (schedules (store w))\<rparr>\<rparr>)")
  have 5: "(\<exists>z. r5 = Inl z) \<and> store w5 = (store w)\<lparr>schedules :=
                    filter (\<lambda>s. first_line_support s \<noteq> e) (schedules (store w))\<rparr>"
    using e5 assms(1,5) by (cases x) (auto simp: execute_def)
  from assms(1,3,6) g s d e5 5 show ?thesis
    by (auto simp: delete_employee_def ensure_connected_open)
qed

subsection \<open>Waiting for the store, and the range query\<close>

lemma connect_snd_same_rows: "same_rows w (snd (connect a b c w))"
  by (cases "connect a b c w") (auto dest: connect_same_rows)

lemma await_up_loop_same_rows:
  "await_up_loop k a b w = (r, w') \<Longrightarrow> same_rows w w'"
proof (induction k arbitrary: a w)
  case 0
  then show ?case by (simp add: same_rows_def)
next
  case (Suc k)
  obtain r1 w1 where e1: "execute select_1 w = (r1, w1)" by (cases "execute select_1 w")
  have f1: "store w1 = store w" using execute_effect[OF e1] by (auto simp: select_1_def)
  show ?case
  proof (cases r1)
    case (Inr v)
    with Suc.prems e1 f1 show ?thesis by (auto simp: same_rows_def)
  next
    case (Inl x)
    define w2 where "w2 = w1\<lparr>slept := slept w1 @ [a]\<rparr>"
    have s2: "same_rows w w2" using f1 by (simp add: w2_def same_rows_def)
    show ?thesis
    proof (cases "conn w2 = Some True")
      case True
      with Suc.prems e1 Inl
      have "\<exists>a'. await_up_loop k a' b (snd (connect 30 1 10 w2)) = (r, w')"
        by (auto simp: Let_def w2_def)
      then obtain a' where "await_up_loop k a' b (snd (connect 30 1 10 w2)) = (r, w')" ..
      from Suc.IH[OF this] connect_snd_same_rows[of w2 30 1 10] s2 show ?thesis
        by (simp add: same_rows_def)
    next
      case False
      with Suc.prems e1 Inl have "\<exists>a'. await_up_loop k a' b w2 = (r, w')"
        by (auto simp: Let_def w2_def)
      then obtain a' where "await_up_loop k a' b w2 = (r, w')" ..
      from Suc.IH[OF this] s2 show ?thesis by (simp add: same_rows_def)
    qed
  qed
qed

lemma await_up_same_rows: "await_up m a b w = (r, w') \<Longrightarrow> same_rows w w'"
  unfolding await_up_def
  by (auto split: if_splits prod.splits sum.splits
      dest!: connect_same_rows await_up_loop_same_rows simp: same_rows_def)

lemma await_up_loop_healthy:
  assumes "healthy w" "await_up_loop (Suc k) a b w = (r, w')"
  shows "healthy w' \<and> r = Inr ()"
proof -
  obtain r1 w1 where e1: "execute select_1 w = (r1, w1)" by (cases "execute select_1 w")
  from execute_healthy[OF assms(1) e1] have "healthy w1" "r1 = Inr ()"
    by (simp_all add: select_1_def)
  with assms(2) e1 show ?thesis by (auto simp: healthy_def all_ok_def)
qed

lemma await_up_healthy:
  assumes "healthy w" "await_up 30 a b w = (r, w')"
  shows "healthy w' \<and> r = Inr ()"
proof (cases "is_query_service_ready w")
  case True
  with assms show ?thesis by (simp add: await_up_def)
next
  case False
  from assms(1) have c: "conn w = Some False" by (simp add: healthy_def)
  with assms(2) False have "await_up_loop (Suc 29) a b w = (r, w')"
    by (simp add: await_up_def del: await_up_loop.simps)
  from await_up_loop_healthy[OF assms(1) this] show ?thesis .
qed

lemma in_range_select:
  "((if truthy a then the a \<le> date s else True) \<and>
    (if truthy b then date s \<le> the b else True)) = in_range a b s"
  by (auto simp: truthy_def in_range_def split: option.splits)

lemma select_schedules_in_range:
  "select_schedules a b d = Inr (sort_key date (filter (in_range a b) (schedules d)), d)"
  by (simp add: select_schedules_def in_range_select)

subsection \<open>Creating an employee\<close>









subsection \<open>Updating an employee\<close>











subsection \<open>Which operations keep a stored duty-count\<close>

lemma has_count_rows: "rows_of e d' = rows_of e d \<Longrightarrow> has_count e c d' = has_count e c d"
  by (simp add: has_count_def)














subsection \<open>The handlers that return \<^verbatim>\<open>False\<close>\<close>
















subsection \<open>The front-fill loop\<close>

lemma default_numbers:
  "map default_number (default_employees today) =
     [''EMP001'', ''EMP002'', ''EMP003'', ''EMP004'', ''EMP005'']"
  by (simp add: default_employees_def)

lemma default_numbers_distinct: "distinct (map default_number (default_employees today))"
  by (simp add: default_numbers)

lemma pick_available:
  assumes "available_employees today (strftime (today + int i)) \<noteq> []"
  shows "pick_employee today i =
           default_number (available_employees today (strftime (today + int i)) !
                             (i mod length (available_employees today (strftime (today + int i)))))"
    and "\<exists>x \<in> set (default_employees today).
           default_number x = pick_employee today i \<and>
           strftime (today + int i) \<notin> set (default_absences x)"
proof -
  let ?av = "available_employees today (strftime (today + int i))"
  show p: "pick_employee today i = default_number (?av ! (i mod length ?av))"
    using assms by (simp add: pick_employee_def Let_def)
  from assms have "i mod length ?av < length ?av" by simp
  then have "?av ! (i mod length ?av) \<in> set ?av" by (rule nth_mem)
  then have "?av ! (i mod length ?av) \<in> set (default_employees today) \<and>
             strftime (today + int i) \<notin> set (default_absences (?av ! (i mod length ?av)))"
    by (simp add: available_employees_def)
  with p show "\<exists>x \<in> set (default_employees today).
           default_number x = pick_employee today i \<and>
           strftime (today + int i) \<notin> set (default_absences x)"
    by auto
qed

lemma absent_not_picked:
  assumes "available_employees today (strftime (today + int i)) \<noteq> []"
    and "x \<in> set (default_employees today)"
    and "strftime (today + int i) \<in> set (default_absences x)"
  shows "pick_employee today i \<noteq> default_number x"
proof
  assume eq: "pick_employee today i = default_number x"
  from pick_available(2)[OF assms(1)] obtain y where y: "y \<in> set (default_employees today)"
    "default_number y = pick_employee today i"
    "strftime (today + int i) \<notin> set (default_absences y)" by blast
  from y(2) eq have "default_number y = default_number x" by simp
  with y(1) assms(2) default_numbers_distinct[of today] have "y = x"
    by (auto simp: distinct_map inj_on_def)
  with y(3) assms(3) show False by simp
qed

lemma fill_day_found:
  "get_schedule (strftime (today + int i)) w = (Inr (Some s), w1) \<Longrightarrow>
     fill_day today i w = (Inr (), w1)"
  by (simp add: fill_day_def)

lemma fill_day_schedules:
  assumes "fill_day today i w = (r, w')"
  shows "schedules (store w') = schedules (store w) \<or>
         schedules (store w') =
           upsert_schedule (strftime (today + int i)) (pick_employee today i)
             (schedules (store w))"
proof -
  let ?d = "strftime (today + int i)"
  obtain r1 w1 where e1: "get_schedule ?d w = (r1, w1)" by (cases "get_schedule ?d w")
  note f1 = get_schedule_outcome[OF e1, unfolded same_rows_def]
  obtain r2 w2 where e2: "create_schedule ?d (pick_employee today i) w1 = (r2, w2)"
    by (cases "create_schedule ?d (pick_employee today i) w1")
  note f2 = create_schedule_outcome[OF e2, unfolded same_rows_def]
  from assms e1 e2 have "w' = w1 \<or> w' = w2"
    by (auto simp: fill_day_def split: sum.splits option.splits)
  with f1 f2 show ?thesis by auto
qed

lemma reassigned_row:
  "date x = d \<Longrightarrow> x\<lparr>first_line_support := e\<rparr> = \<lparr>date = d, first_line_support = e\<rparr>"
  by (cases x) simp

lemma upsert_schedule_rows:
  "s \<in> set (upsert_schedule d e rows) \<Longrightarrow>
     s \<in> set rows \<or> s = \<lparr>date = d, first_line_support = e\<rparr>"
  by (auto simp: upsert_schedule_def reassigned_row split: if_splits)

lemma front_fill_rows:
  "front_fill today js w = (r, w') \<Longrightarrow>
     \<forall>s \<in> set (schedules (store w')).
        s \<in> set (schedules (store w)) \<or>
        (\<exists>i \<in> set js. s = \<lparr>date = strftime (today + int i),
                              first_line_support = pick_employee today i\<rparr>)"
proof (induction js arbitrary: w)
  case Nil
  then show ?case by simp
next
  case (Cons i js)
  obtain r1 w1 where e1: "fill_day today i w = (r1, w1)" by (cases "fill_day today i w")
  have f1: "\<forall>s \<in> set (schedules (store w1)).
        s \<in> set (schedules (store w)) \<or>
        s = \<lparr>date = strftime (today + int i), first_line_support = pick_employee today i\<rparr>"
    using fill_day_schedules[OF e1] by (auto dest: upsert_schedule_rows)
  show ?case
  proof (cases r1)
    case (Inl x)
    with Cons.prems e1 have "w' = w1" by simp
    with f1 show ?thesis by auto
  next
    case (Inr v)
    with Cons.prems e1 have "front_fill today js w1 = (r, w')" by simp
    from Cons.IH[OF this] f1 show ?thesis by fastforce
  qed
qed

subsection \<open>The column types at work\<close>

lemma strftime_length: "length (strftime n) = 10"
  by (simp add: strftime_def split: prod.splits)

lemma strftime_fits: "varchar 10 (strftime n)"
  by (simp add: varchar_def strftime_length)

lemma pick_is_default:
  "pick_employee today i \<in> set (map default_number (default_employees today))"
proof (cases "available_employees today (strftime (today + int i)) = []")
  case True
  have "i mod length (default_employees today) < length (default_employees today)"
    by (simp add: default_employees_def)
  then have "default_employees today ! (i mod length (default_employees today))
               \<in> set (default_employees today)"
    by (rule nth_mem)
  with True show ?thesis by (simp add: pick_employee_def Let_def)
next
  case False
  from pick_available(2)[OF False] obtain y where "y \<in> set (default_employees today)"
    "default_number y = pick_employee today i" by blast
  then have "pick_employee today i \<in> default_number ` set (default_employees today)"
    by (metis imageI)
  then show ?thesis by simp
qed

lemma pick_fits: "varchar 36 (pick_employee today i)"
  using pick_is_default[of today i] by (auto simp: default_numbers varchar_def)




lemma create_schedule_ok:
  assumes "all_ok w" "varchar 10 d" "varchar 36 e" "e \<in> set (numbers (store w))"
    and "create_schedule d e w = (r, w')"
  shows "r = Inr d \<and> healthy w' \<and> counts_ok (store w') \<and>
         schedules (store w') = upsert_schedule d e (schedules (store w)) \<and>
         numbers (store w') = numbers (store w)"
proof -
  obtain r1 w1 where e1: "ensure_connected w = (r1, w1)" by (cases "ensure_connected w")
  from ensure_connected_ok[OF assms(1) e1] have h1: "healthy w1" and r1: "r1 = Inr ()"
    and s1: "same_rows w w1" by simp_all
  obtain r2 w2 where e2: "execute (insert_schedule d e) w1 = (r2, w2)"
    by (cases "execute (insert_schedule d e) w1")
  from assms(4) s1 have "e \<in> set (numbers (store w1))"
    by (simp add: numbers_def same_rows_def)
  with assms(2,3) have "insert_schedule d e (store w1) =
      Inr ((), (store w1)\<lparr>schedules := upsert_schedule d e (schedules (store w1))\<rparr>)"
    by (simp add: insert_schedule_Inr)
  with execute_healthy[OF h1 e2] s1
  have h2: "healthy w2" and r2: "r2 = Inr ()"
    and s2: "schedules (store w2) = upsert_schedule d e (schedules (store w))"
    and n2: "employees (store w2) = employees (store w)"
    by (simp_all add: same_rows_def)
  obtain r3 w3 where e3: "update_employee_counts w2 = (r3, w3)"
    by (cases "update_employee_counts w2")
  from update_employee_counts_ok[OF healthy_all_ok[OF h2] e3] s2 n2
  have "healthy w3" "r3 = Inr ()" "counts_ok (store w3)"
    "schedules (store w3) = upsert_schedule d e (schedules (store w))"
    "numbers (store w3) = numbers (store w)"
    by (simp_all add: numbers_def)
  with assms(5) e1 r1 e2 r2 e3 show ?thesis by (simp add: create_schedule_def)
qed





subsection \<open>The front-fill loop when no round trip fails\<close>

lemma upsert_schedule_new:
  "schedules_on d D = [] \<Longrightarrow>
     upsert_schedule d e (schedules D) = schedules D @ [\<lparr>date = d, first_line_support = e\<rparr>]"
  by (auto simp: upsert_schedule_def schedules_on_def filter_empty_conv)

lemma fill_day_skips:
  assumes "all_ok w" "schedules_on (strftime (today + int i)) (store w) \<noteq> []"
    and "fill_day today i w = (r, w')"
  shows "r = Inr () \<and> healthy w' \<and> same_rows w w'"
proof -
  obtain r1 w1 where e1: "get_schedule (strftime (today + int i)) w = (r1, w1)"
    by (cases "get_schedule (strftime (today + int i)) w")
  from assms(2) obtain s where
    "find (\<lambda>s. date s = strftime (today + int i)) (schedules (store w)) = Some s"
    using find_filter_Some[of "\<lambda>s. date s = strftime (today + int i)" "schedules (store w)"]
    by (auto simp: schedules_on_def)
  with get_schedule_ok[OF assms(1) e1] have "r1 = Inr (Some s)" "same_rows w w1" "healthy w1"
    by simp_all
  with assms(3) e1 show ?thesis by (simp add: fill_day_def)
qed

lemma fill_day_assigns:
  assumes "all_ok w" "schedules_on (strftime (today + int i)) (store w) = []"
    and "pick_employee today i \<in> set (numbers (store w))"
    and "fill_day today i w = (r, w')"
  shows "r = Inr () \<and> healthy w' \<and> counts_ok (store w') \<and>
         numbers (store w') = numbers (store w) \<and>
         schedules (store w') = schedules (store w) @
           [\<lparr>date = strftime (today + int i), first_line_support = pick_employee today i\<rparr>]"
proof -
  let ?d = "strftime (today + int i)"
  obtain r1 w1 where e1: "get_schedule ?d w = (r1, w1)" by (cases "get_schedule ?d w")
  from assms(2) have "find (\<lambda>s. date s = ?d) (schedules (store w)) = None"
    unfolding schedules_on_def by (rule find_filter_Nil)
  with get_schedule_ok[OF assms(1) e1] have r1: "r1 = Inr None" and s1: "same_rows w w1"
    and h1: "healthy w1" by simp_all
  obtain r2 w2 where e2: "create_schedule ?d (pick_employee today i) w1 = (r2, w2)"
    by (cases "create_schedule ?d (pick_employee today i) w1")
  from assms(3) s1 have "pick_employee today i \<in> set (numbers (store w1))"
    by (simp add: numbers_def same_rows_def)
  from create_schedule_ok[OF healthy_all_ok[OF h1] strftime_fits pick_fits this e2] s1
  have "healthy w2" "counts_ok (store w2)" "numbers (store w2) = numbers (store w)"
    "schedules (store w2) = upsert_schedule ?d (pick_employee today i) (schedules (store w))"
    by (simp_all add: same_rows_def numbers_def)
  with assms(2,4) e1 r1 e2 show ?thesis
    by (simp add: fill_day_def upsert_schedule_new)
qed

lemma fill_day_unknown_employee:
  assumes "all_ok w" "schedules_on (strftime (today + int i)) (store w) = []"
    and "pick_employee today i \<notin> set (numbers (store w))"
    and "fill_day today i w = (r, w')"
  shows "r = Inr () \<and> same_rows w w'"
proof -
  let ?d = "strftime (today + int i)"
  obtain r1 w1 where e1: "get_schedule ?d w = (r1, w1)" by (cases "get_schedule ?d w")
  from assms(2) have "find (\<lambda>s. date s = ?d) (schedules (store w)) = None"
    unfolding schedules_on_def by (rule find_filter_Nil)
  with get_schedule_ok[OF assms(1) e1] have r1: "r1 = Inr None" and s1: "same_rows w w1"
    by simp_all
  obtain r2 w2 where e2: "create_schedule ?d (pick_employee today i) w1 = (r2, w2)"
    by (cases "create_schedule ?d (pick_employee today i) w1")
  from assms(3) s1 have "pick_employee today i \<notin> set (numbers (store w1))"
    by (simp add: numbers_def same_rows_def)
  with create_schedule_outcome[OF e2] have "same_rows w1 w2" by auto
  with s1 assms(4) e1 r1 e2 show ?thesis by (auto simp: fill_day_def same_rows_def)
qed

lemma schedules_on_append:
  "schedules D' = schedules D @ [\<lparr>date = d, first_line_support = e\<rparr>] \<Longrightarrow> d' \<noteq> d \<Longrightarrow>
     schedules_on d' D' = schedules_on d' D"
  by (simp add: schedules_on_def)

lemma front_fill_assigns:
  assumes "all_ok w"
    and "set (map default_number (default_employees today)) \<subseteq> set (numbers (store w))"
    and "distinct (map (\<lambda>k. strftime (today + int k)) js)"
    and "front_fill today js w = (r, w')"
  shows "r = Inr () \<and>
         schedules (store w') = schedules (store w) @
           map (\<lambda>k. \<lparr>date = strftime (today + int k),
                      first_line_support = pick_employee today k\<rparr>)
             (filter (\<lambda>k. schedules_on (strftime (today + int k)) (store w) = []) js)"
  using assms
proof (induction js arbitrary: w)
  case Nil
  then show ?case by simp
next
  case (Cons i js)
  let ?d = "\<lambda>k. strftime (today + int k)"
  let ?row = "\<lambda>k. \<lparr>date = ?d k, first_line_support = pick_employee today k\<rparr>"
  obtain r1 w1 where e1: "fill_day today i w = (r1, w1)" by (cases "fill_day today i w")
  from Cons.prems(2) pick_is_default[of today i]
  have p: "pick_employee today i \<in> set (numbers (store w))" by blast
  from Cons.prems(3) have dj: "distinct (map ?d js)" and "?d i \<notin> ?d ` set js"
    by simp_all
  then have di: "\<forall>k \<in> set js. ?d k \<noteq> ?d i" by (metis imageI)
  show ?case
  proof (cases "schedules_on (?d i) (store w) = []")
    case True
    from fill_day_assigns[OF Cons.prems(1) True p e1]
    have r1: "r1 = Inr ()" and h1: "healthy w1"
      and n1: "numbers (store w1) = numbers (store w)"
      and s1: "schedules (store w1) = schedules (store w) @ [?row i]"
      by simp_all
    from Cons.prems(4) e1 r1 have f: "front_fill today js w1 = (r, w')" by simp
    from Cons.prems(2) n1
    have "set (map default_number (default_employees today)) \<subseteq> set (numbers (store w1))"
      by simp
    from Cons.IH[OF healthy_all_ok[OF h1] this dj f]
    have r: "r = Inr ()" and s: "schedules (store w') = schedules (store w1) @
           map ?row (filter (\<lambda>k. schedules_on (?d k) (store w1) = []) js)"
      by simp_all
    have "filter (\<lambda>k. schedules_on (?d k) (store w1) = []) js =
          filter (\<lambda>k. schedules_on (?d k) (store w) = []) js"
      using di schedules_on_append[OF s1] by (intro filter_cong) auto
    with r s s1 True show ?thesis by simp
  next
    case False
    from fill_day_skips[OF Cons.prems(1) False e1]
    have r1: "r1 = Inr ()" and h1: "healthy w1" and s1: "same_rows w w1" by simp_all
    from Cons.prems(4) e1 r1 have f: "front_fill today js w1 = (r, w')" by simp
    from Cons.prems(2) s1
    have "set (map default_number (default_employees today)) \<subseteq> set (numbers (store w1))"
      by (simp add: numbers_def same_rows_def)
    from Cons.IH[OF healthy_all_ok[OF h1] this dj f] s1 False show ?thesis
      by (simp add: same_rows_def schedules_on_def)
  qed
qed

section \<open>The claims\<close>

subsection \<open>C1: the duty counts after a schedule mutation\<close>

lemma create_schedule_reconciles:
  assumes "all_ok w" "create_schedule d e w = (Inr v, w')"
  shows "counts_ok (store w')"
proof -
  obtain r1 w1 where e1: "ensure_connected w = (r1, w1)" by (cases "ensure_connected w")
  from ensure_connected_ok[OF assms(1) e1] have h1: "healthy w1" and r1: "r1 = Inr ()"
    by simp_all
  obtain r2 w2 where e2: "execute (insert_schedule d e) w1 = (r2, w2)"
    by (cases "execute (insert_schedule d e) w1")
  from execute_healthy[OF h1 e2] have h2: "all_ok w2" by (simp add: healthy_def)
  obtain r3 w3 where e3: "update_employee_counts w2 = (r3, w3)"
    by (cases "update_employee_counts w2")
  from assms(2) e1 r1 e2 e3 have "w' = w3"
    by (auto simp: create_schedule_def split: sum.splits)
  with update_employee_counts_ok[OF h2 e3] show ?thesis by simp
qed

lemma update_schedule_reconciles:
  assumes "all_ok w" "update_schedule d e w = (Inr True, w')"
  shows "counts_ok (store w')"
proof -
  obtain r1 w1 where e1: "ensure_connected w = (r1, w1)" by (cases "ensure_connected w")
  from ensure_connected_ok[OF assms(1) e1] have h1: "healthy w1" and r1: "r1 = Inr ()"
    by simp_all
  obtain r2 w2 where e2: "get_schedule d w1 = (r2, w2)" by (cases "get_schedule d w1")
  from get_schedule_ok[OF healthy_all_ok[OF h1] e2] have h2: "healthy w2" by simp
  obtain r3 w3 where e3: "execute (update_schedule_row d e) w2 = (r3, w3)"
    by (cases "execute (update_schedule_row d e) w2")
  from execute_healthy[OF h2 e3] have h3: "all_ok w3" by (simp add: healthy_def)
  obtain r4 w4 where e4: "update_employee_counts w3 = (r4, w4)"
    by (cases "update_employee_counts w3")
  from assms(2) e1 r1 e2 e3 e4 have "w' = w4"
    by (auto simp: update_schedule_def split: sum.splits option.splits if_splits)
  with update_employee_counts_ok[OF h3 e4] show ?thesis by simp
qed

lemma delete_schedule_reconciles:
  assumes "all_ok w" "delete_schedule d w = (Inr True, w')"
  shows "counts_ok (store w')"
proof -
  obtain r1 w1 where e1: "ensure_connected w = (r1, w1)" by (cases "ensure_connected w")
  from ensure_connected_ok[OF assms(1) e1] have h1: "healthy w1" and r1: "r1 = Inr ()"
    by simp_all
  obtain r2 w2 where e2: "get_schedule d w1 = (r2, w2)" by (cases "get_schedule d w1")
  from get_schedule_ok[OF healthy_all_ok[OF h1] e2] have h2: "healthy w2" by simp
  obtain r3 w3 where e3: "execute (delete_schedule_row d) w2 = (r3, w3)"
    by (cases "execute (delete_schedule_row d) w2")
  from execute_healthy[OF h2 e3] have h3: "all_ok w3" by (simp add: healthy_def)
  obtain r4 w4 where e4: "update_employee_counts w3 = (r4, w4)"
    by (cases "update_employee_counts w3")
  from assms(2) e1 r1 e2 e3 e4 have "w' = w4"
    by (auto simp: delete_schedule_def split: sum.splits option.splits if_splits)
  with update_employee_counts_ok[OF h3 e4] show ?thesis by simp
qed

text \<open>
  Claim C1, as amended. After \<^verbatim>\<open>create_schedule\<close> has returned its date, or
  \<^verbatim>\<open>update_schedule\<close> or \<^verbatim>\<open>delete_schedule\<close> has returned \<^verbatim>\<open>True\<close>, in a run where the
  store answers every round trip without failure, every employee row's
  \<^verbatim>\<open>first_line_support_count\<close> is the number of schedule rows whose
  \<^verbatim>\<open>first_line_support\<close> is that employee's number.
\<close>

theorem counts_reconciled_after_schedule_mutation:
  assumes "all_ok w"
  shows "(create_schedule d e w = (Inr v, w') \<longrightarrow> counts_ok (store w')) \<and>
         (update_schedule d e w = (Inr True, w') \<longrightarrow> counts_ok (store w')) \<and>
         (delete_schedule d w = (Inr True, w') \<longrightarrow> counts_ok (store w'))"
  using assms create_schedule_reconciles update_schedule_reconciles delete_schedule_reconciles
  by blast

text \<open>
  The three mutations on \<open>w_duty\<close>, where the store never fails: each succeeds and the
  counts are those of the schedule table.
\<close>

theorem counts_reconciled_after_schedule_mutation_witness:
  "all_ok w_duty \<and>
   fst (create_schedule ''2024-02-04'' ''EMP001'' w_duty) = Inr ''2024-02-04'' \<and>
   counts_ok (store (snd (create_schedule ''2024-02-04'' ''EMP001'' w_duty))) \<and>
   fst (update_schedule ''2024-02-02'' ''EMP001'' w_duty) = Inr True \<and>
   counts_ok (store (snd (update_schedule ''2024-02-02'' ''EMP001'' w_duty))) \<and>
   fst (delete_schedule ''2024-02-03'' w_duty) = Inr True \<and>
   counts_ok (store (snd (delete_schedule ''2024-02-03'' w_duty)))"
proof -
  have a: "all_ok w_duty" by code_simp
  have c: "fst (create_schedule ''2024-02-04'' ''EMP001'' w_duty) = Inr ''2024-02-04''"
    by code_simp
  have u: "fst (update_schedule ''2024-02-02'' ''EMP001'' w_duty) = Inr True" by code_simp
  have d: "fst (delete_schedule ''2024-02-03'' w_duty) = Inr True" by code_simp
  have c': "create_schedule ''2024-02-04'' ''EMP001'' w_duty =
      (Inr ''2024-02-04'', snd (create_schedule ''2024-02-04'' ''EMP001'' w_duty))"
    using c by (simp add: prod_eq_iff)
  have u': "update_schedule ''2024-02-02'' ''EMP001'' w_duty =
      (Inr True, snd (update_schedule ''2024-02-02'' ''EMP001'' w_duty))"
    using u by (simp add: prod_eq_iff)
  have d': "delete_schedule ''2024-02-03'' w_duty =
      (Inr True, snd (delete_schedule ''2024-02-03'' w_duty))"
    using d by (simp add: prod_eq_iff)
  from counts_reconciled_after_schedule_mutation[OF a] a c u d c' u' d' show ?thesis
    by blast
qed

text \<open>
  Claim C1 as stated fails. On \<open>w_lars\<close> the insert succeeds and the first statement
  of the reconciliation fails; \<^verbatim>\<open>_update_employee_counts\<close> logs that and returns, and
  \<^verbatim>\<open>create_schedule\<close> returns its date. EMP001 then has one schedule row and the
  count 0.
\<close>

theorem counts_stale_after_successful_create_schedule:
  "fst (create_schedule ''2024-03-01'' ''EMP001'' (w_lars\<lparr>replies := [Ok, Err]\<rparr>)) =
     Inr ''2024-03-01'' \<and>
   \<not> counts_ok
       (store (snd (create_schedule ''2024-03-01'' ''EMP001'' (w_lars\<lparr>replies := [Ok, Err]\<rparr>))))"
  by code_simp

subsection \<open>C2: the cascade of \<^verbatim>\<open>delete_employee\<close>\<close>

text \<open>
  Claim C2. For a call of \<^verbatim>\<open>delete_employee\<close> with result \<open>r\<close>:
  \<^item> when it returns \<^verbatim>\<open>True\<close>, the employee existed, no employee row bears the number any
    more, and the schedule table has lost exactly the rows that referenced it;
  \<^item> it returns \<^verbatim>\<open>True\<close> exactly when the employee row was removed;
  \<^item> when the employee did not exist it does not return \<^verbatim>\<open>True\<close> and changes neither
    table, and on a connected client it returns \<^verbatim>\<open>False\<close> (before the lookup, a client
    without an open connection reconnects, and a failure of that is raised);
  \<^item> for an employee that exists, on a connected client and a store that does not fail,
    it returns \<^verbatim>\<open>True\<close>;
  \<^item> the rows of every other employee, and so their duty-counts, are unchanged.
\<close>

theorem delete_employee_cascade:
  assumes "delete_employee e w = (r, w')"
  shows "(r = Inr True \<longrightarrow>
            rows_of e (store w) \<noteq> [] \<and> rows_of e (store w') = [] \<and>
            employees (store w') = filter (\<lambda>x. employee_number x \<noteq> e) (employees (store w)) \<and>
            schedules (store w') = filter (\<lambda>s. first_line_support s \<noteq> e) (schedules (store w))) \<and>
         (rows_of e (store w) \<noteq> [] \<and> rows_of e (store w') = [] \<longrightarrow> r = Inr True) \<and>
         (rows_of e (store w) = [] \<longrightarrow> r \<noteq> Inr True \<and> same_rows w w') \<and>
         (rows_of e (store w) = [] \<and> conn w = Some False \<longrightarrow> r = Inr False) \<and>
         (rows_of e (store w) \<noteq> [] \<and> healthy w \<longrightarrow> r = Inr True) \<and>
         (\<forall>e'. e' \<noteq> e \<longrightarrow> rows_of e' (store w') = rows_of e' (store w))"
proof -
  note o = delete_employee_outcome[OF assms]
  have other: "\<And>e'. e' \<noteq> e \<Longrightarrow>
      filter (\<lambda>r. employee_number r = e') (filter (\<lambda>x. employee_number x \<noteq> e) (employees (store w)))
      = filter (\<lambda>r. employee_number r = e') (employees (store w))"
    by (auto intro: filter_cong)
  have 1: "r = Inr True \<longrightarrow>
            rows_of e (store w) \<noteq> [] \<and> rows_of e (store w') = [] \<and>
            employees (store w') = filter (\<lambda>x. employee_number x \<noteq> e) (employees (store w)) \<and>
            schedules (store w') = filter (\<lambda>s. first_line_support s \<noteq> e) (schedules (store w))"
    using o by (auto simp: rows_of_def)
  have 2: "rows_of e (store w) \<noteq> [] \<and> rows_of e (store w') = [] \<longrightarrow> r = Inr True"
    using o by (auto simp: rows_of_def)
  have 3: "rows_of e (store w) = [] \<longrightarrow> r \<noteq> Inr True \<and> same_rows w w'"
    using o by (auto simp: same_rows_def)
  have 4: "rows_of e (store w) = [] \<and> conn w = Some False \<longrightarrow> r = Inr False"
    using 3 delete_employee_returns[of w e] assms by auto
  have 5: "rows_of e (store w) \<noteq> [] \<and> healthy w \<longrightarrow> r = Inr True"
    using delete_employee_healthy[OF _ _ assms] by blast
  have 6: "\<forall>e'. e' \<noteq> e \<longrightarrow> rows_of e' (store w') = rows_of e' (store w)"
    using o other by (cases "r = Inr True") (auto simp: rows_of_def)
  from 1 2 3 4 5 6 show ?thesis by blast
qed

theorem delete_employee_cascade_witness:
  "delete_employee ''EMP002'' w_duty =
     (Inr True, snd (delete_employee ''EMP002'' w_duty)) \<and>
   healthy w_duty \<and>
   rows_of ''EMP002'' (store w_duty) \<noteq> [] \<and>
   rows_of ''EMP002'' (store (snd (delete_employee ''EMP002'' w_duty))) = [] \<and>
   schedules (store (snd (delete_employee ''EMP002'' w_duty))) =
     [\<lparr>date = ''2024-02-01'', first_line_support = ''EMP001''\<rparr>] \<and>
   rows_of ''EMP001'' (store (snd (delete_employee ''EMP002'' w_duty))) =
     [lars\<lparr>first_line_support_count := 1\<rparr>] \<and>
   rows_of ''EMP009'' (store w_duty) = [] \<and>
   delete_employee ''EMP009'' w_duty = (Inr False, w_duty)"
proof -
  have a: "delete_employee ''EMP002'' w_duty =
     (fst (delete_employee ''EMP002'' w_duty), snd (delete_employee ''EMP002'' w_duty))"
    by simp
  have h: "healthy w_duty" by code_simp
  have x: "rows_of ''EMP002'' (store w_duty) \<noteq> []" by code_simp
  have y: "rows_of ''EMP001'' (store w_duty) = [lars\<lparr>first_line_support_count := 1\<rparr>]"
    by code_simp
  have s: "filter (\<lambda>s. first_line_support s \<noteq> ''EMP002'') (schedules (store w_duty)) =
     [\<lparr>date = ''2024-02-01'', first_line_support = ''EMP001''\<rparr>]"
    by code_simp
  have n: "''EMP001'' \<noteq> ''EMP002''" by simp
  have z: "rows_of ''EMP009'' (store w_duty) = []" by code_simp
  have b: "delete_employee ''EMP009'' w_duty = (Inr False, w_duty)" by code_simp
  from delete_employee_cascade[OF a] h x
  have t: "fst (delete_employee ''EMP002'' w_duty) = Inr True" by blast
  from delete_employee_cascade[OF a] t n y s
  have "rows_of ''EMP002'' (store (snd (delete_employee ''EMP002'' w_duty))) = [] \<and>
        schedules (store (snd (delete_employee ''EMP002'' w_duty))) =
          [\<lparr>date = ''2024-02-01'', first_line_support = ''EMP001''\<rparr>] \<and>
        rows_of ''EMP001'' (store (snd (delete_employee ''EMP002'' w_duty))) =
          [lars\<lparr>first_line_support_count := 1\<rparr>]"
    by simp
  with a t h x z b show ?thesis by simp
qed

subsection \<open>C3: a schedule for an employee that does not exist\<close>



subsection \<open>C4: the assignment of the bootstrap loop\<close>

text \<open>
  Claim C4, as amended. For the day at offset \<open>i\<close> the body of the front-fill loop does
  this:
  \<^item> when the lookup \<^verbatim>\<open>get_schedule\<close> returns a schedule for the date, the body ends
    there and every table is as the lookup left it: employees and schedules are
    unchanged. That is so whenever a schedule exists and no round trip fails;
  \<^item> when the date has no schedule and no round trip fails, the body assigns the
    employee it picked: the schedule table is the one before with the row of the date
    and the picked employee appended, and the duty counts are reconciled. That holds
    when the picked employee has a row in the employee table; without one
    \<^verbatim>\<open>create_schedule\<close> raises, the body logs that, and nothing changes;
  \<^item> whatever the store answers (a failed lookup is answered with \<^verbatim>\<open>None\<close> and taken
    for a missing schedule), the only change the body can make to the schedule table is
    the upsert of the date's row with the employee it picked;
  \<^item> when some default employee is not absent on the date, the employee picked is
    \<^verbatim>\<open>available[i % len(available)]\<close>, one who is not absent on the date; and a default
    employee who is absent on the date is then not the one picked.

  For the loop as a whole: every schedule row after the loop was there before it, or is
  the row of one of its days with the employee picked for that day. When no round trip
  fails, the default employees have their rows and the days of the loop have distinct
  dates, the schedule table after the loop is the one before it, followed by the rows
  of the days that had no schedule, each with the employee picked for it.
\<close>

theorem front_fill_assignment:
  "(fill_day today i w = (r, w') \<longrightarrow>
      (\<forall>s w1. get_schedule (strftime (today + int i)) w = (Inr (Some s), w1) \<longrightarrow>
         r = Inr () \<and> w' = w1 \<and> same_rows w w') \<and>
      (all_ok w \<and> schedules_on (strftime (today + int i)) (store w) \<noteq> [] \<longrightarrow>
         r = Inr () \<and> same_rows w w') \<and>
      (all_ok w \<and> schedules_on (strftime (today + int i)) (store w) = [] \<and>
       pick_employee today i \<in> set (numbers (store w)) \<longrightarrow>
         r = Inr () \<and>
         schedules (store w') = schedules (store w) @
           [\<lparr>date = strftime (today + int i),
             first_line_support = pick_employee today i\<rparr>] \<and>
         numbers (store w') = numbers (store w) \<and> counts_ok (store w')) \<and>
      (all_ok w \<and> schedules_on (strftime (today + int i)) (store w) = [] \<and>
       pick_employee today i \<notin> set (numbers (store w)) \<longrightarrow>
         r = Inr () \<and> same_rows w w') \<and>
      (schedules (store w') = schedules (store w) \<or>
       schedules (store w') =
         upsert_schedule (strftime (today + int i)) (pick_employee today i)
           (schedules (store w)))) \<and>
   (available_employees today (strftime (today + int i)) \<noteq> [] \<longrightarrow>
      pick_employee today i =
        default_number
          (available_employees today (strftime (today + int i)) !
             (i mod length (available_employees today (strftime (today + int i))))) \<and>
      (\<forall>x \<in> set (default_employees today).
         strftime (today + int i) \<in> set (default_absences x) \<longrightarrow>
         pick_employee today i \<noteq> default_number x)) \<and>
   (front_fill today js w = (r2, w2) \<longrightarrow>
      (\<forall>s \<in> set (schedules (store w2)).
         s \<in> set (schedules (store w)) \<or>
         (\<exists>k \<in> set js. s = \<lparr>date = strftime (today + int k),
                               first_line_support = pick_employee today k\<rparr>))) \<and>
   (all_ok w \<and>
    set (map default_number (default_employees today)) \<subseteq> set (numbers (store w)) \<and>
    distinct (map (\<lambda>k. strftime (today + int k)) js) \<and>
    front_fill today js w = (r2, w2) \<longrightarrow>
      r2 = Inr () \<and>
      schedules (store w2) = schedules (store w) @
        map (\<lambda>k. \<lparr>date = strftime (today + int k),
                   first_line_support = pick_employee today k\<rparr>)
          (filter (\<lambda>k. schedules_on (strftime (today + int k)) (store w) = []) js))"
proof (intro conjI allI impI ballI)
  fix s w1
  assume assms: "fill_day today i w = (r, w')"
  assume g: "get_schedule (strftime (today + int i)) w = (Inr (Some s), w1)"
  from fill_day_found[OF g] assms show "r = Inr ()" and "w' = w1" by simp_all
  with get_schedule_outcome[OF g] show "same_rows w w'" by simp
next
  assume assms: "fill_day today i w = (r, w')"
  assume a: "all_ok w \<and> schedules_on (strftime (today + int i)) (store w) \<noteq> []"
  obtain r1 w1 where e1: "get_schedule (strftime (today + int i)) w = (r1, w1)"
    by (cases "get_schedule (strftime (today + int i)) w")
  from a obtain s where
    "find (\<lambda>s. date s = strftime (today + int i)) (schedules (store w)) = Some s"
    using find_filter_Some[of "\<lambda>s. date s = strftime (today + int i)" "schedules (store w)"]
    by (auto simp: schedules_on_def)
  with get_schedule_ok[OF _ e1] a have g: "r1 = Inr (Some s)" and s: "same_rows w w1"
    by simp_all
  from fill_day_found[of today i w s w1] e1 g assms have "r = Inr ()" "w' = w1" by simp_all
  with s show "r = Inr ()" and "same_rows w w'" by simp_all
next
  assume f: "fill_day today i w = (r, w')"
  assume a: "all_ok w \<and> schedules_on (strftime (today + int i)) (store w) = [] \<and>
       pick_employee today i \<in> set (numbers (store w))"
  from a have "all_ok w" "schedules_on (strftime (today + int i)) (store w) = []"
    "pick_employee today i \<in> set (numbers (store w))" by simp_all
  note t = fill_day_assigns[OF this f]
  from t show "r = Inr ()" by simp
  from t show "schedules (store w') = schedules (store w) @
           [\<lparr>date = strftime (today + int i),
             first_line_support = pick_employee today i\<rparr>]" by simp
  from t show "numbers (store w') = numbers (store w)" by simp
  from t show "counts_ok (store w')" by simp
next
  assume f: "fill_day today i w = (r, w')"
  assume a: "all_ok w \<and> schedules_on (strftime (today + int i)) (store w) = [] \<and>
       pick_employee today i \<notin> set (numbers (store w))"
  from a have "all_ok w" "schedules_on (strftime (today + int i)) (store w) = []"
    "pick_employee today i \<notin> set (numbers (store w))" by simp_all
  note t = fill_day_unknown_employee[OF this f]
  from t show "r = Inr ()" by simp
  from t show "same_rows w w'" by simp
next
  assume "fill_day today i w = (r, w')"
  then show "schedules (store w') = schedules (store w) \<or>
        schedules (store w') =
          upsert_schedule (strftime (today + int i)) (pick_employee today i)
            (schedules (store w))"
    by (rule fill_day_schedules)
next
  assume "available_employees today (strftime (today + int i)) \<noteq> []"
  then show "pick_employee today i =
      default_number
        (available_employees today (strftime (today + int i)) !
           (i mod length (available_employees today (strftime (today + int i)))))"
    by (rule pick_available(1))
next
  fix x
  assume "available_employees today (strftime (today + int i)) \<noteq> []"
    "x \<in> set (default_employees today)"
    "strftime (today + int i) \<in> set (default_absences x)"
  then show "pick_employee today i \<noteq> default_number x" by (rule absent_not_picked)
next
  fix s
  assume "front_fill today js w = (r2, w2)" "s \<in> set (schedules (store w2))"
  with front_fill_rows[of today js w r2 w2]
  show "s \<in> set (schedules (store w)) \<or>
        (\<exists>k \<in> set js. s = \<lparr>date = strftime (today + int k),
                              first_line_support = pick_employee today k\<rparr>)"
    by blast
next
  assume a: "all_ok w \<and>
    set (map default_number (default_employees today)) \<subseteq> set (numbers (store w)) \<and>
    distinct (map (\<lambda>k. strftime (today + int k)) js) \<and>
    front_fill today js w = (r2, w2)"
  then have "all_ok w"
    "set (map default_number (default_employees today)) \<subseteq> set (numbers (store w))"
    "distinct (map (\<lambda>k. strftime (today + int k)) js)"
    "front_fill today js w = (r2, w2)" by simp_all
  note t = front_fill_assigns[OF this]
  from t show "r2 = Inr ()" by simp
  from t show "schedules (store w2) = schedules (store w) @
        map (\<lambda>k. \<lparr>date = strftime (today + int k),
                   first_line_support = pick_employee today k\<rparr>)
          (filter (\<lambda>k. schedules_on (strftime (today + int k)) (store w) = []) js)"
    by simp
qed

text \<open>
  On \<open>w_boot\<close>, on 2024-03-01 (day 60), where the store does not fail. The day has a
  schedule, so the first iteration changes nothing; EMP001 and EMP002 are absent that
  day, three employees are available, and the pick is the first of them, EMP003. The
  next day has no schedule and nobody is absent: the second iteration appends the row of
  2024-03-02 with the second of the five, EMP002. The whole loop appends the rows of the
  six days that had no schedule.
\<close>

theorem front_fill_assignment_witness:
  "all_ok w_boot \<and> schedules_on (strftime (60 + int 0)) (store w_boot) \<noteq> [] \<and>
   get_schedule (strftime (60 + int 0)) w_boot =
     (Inr (Some \<lparr>date = ''2024-03-01'', first_line_support = ''EMP005''\<rparr>), w_boot) \<and>
   fill_day 60 0 w_boot = (Inr (), w_boot) \<and>
   same_rows w_boot w_boot \<and>
   available_employees 60 (strftime (60 + int 0)) \<noteq> [] \<and>
   default_employees 60 ! 0 \<in> set (default_employees 60) \<and>
   strftime (60 + int 0) \<in> set (default_absences (default_employees 60 ! 0)) \<and>
   default_number (default_employees 60 ! 0) = ''EMP001'' \<and>
   pick_employee 60 0 \<noteq> default_number (default_employees 60 ! 0) \<and>
   pick_employee 60 0 =
     default_number (available_employees 60 (strftime (60 + int 0)) !
                       (0 mod length (available_employees 60 (strftime (60 + int 0))))) \<and>
   pick_employee 60 0 = ''EMP003'' \<and>
   schedules_on (strftime (60 + int 1)) (store w_boot) = [] \<and>
   pick_employee 60 1 \<in> set (numbers (store w_boot)) \<and>
   fst (fill_day 60 1 w_boot) = Inr () \<and>
   schedules (store (snd (fill_day 60 1 w_boot))) =
     [\<lparr>date = ''2024-03-01'', first_line_support = ''EMP005''\<rparr>,
      \<lparr>date = ''2024-03-02'', first_line_support = ''EMP002''\<rparr>] \<and>
   counts_ok (store (snd (fill_day 60 1 w_boot))) \<and>
   set (map default_number (default_employees 60)) \<subseteq> set (numbers (store w_boot)) \<and>
   distinct (map (\<lambda>k. strftime (60 + int k)) [0..<7]) \<and>
   fst (front_fill 60 [0..<7] w_boot) = Inr () \<and>
   schedules (store (snd (front_fill 60 [0..<7] w_boot))) =
     [\<lparr>date = ''2024-03-01'', first_line_support = ''EMP005''\<rparr>,
      \<lparr>date = ''2024-03-02'', first_line_support = ''EMP002''\<rparr>,
      \<lparr>date = ''2024-03-03'', first_line_support = ''EMP003''\<rparr>,
      \<lparr>date = ''2024-03-04'', first_line_support = ''EMP002''\<rparr>,
      \<lparr>date = ''2024-03-05'', first_line_support = ''EMP005''\<rparr>,
      \<lparr>date = ''2024-03-06'', first_line_support = ''EMP003''\<rparr>,
      \<lparr>date = ''2024-03-07'', first_line_support = ''EMP004''\<rparr>]"
proof -
  let ?w1 = "snd (fill_day 60 1 w_boot)"
  let ?w7 = "snd (front_fill 60 [0..<7] w_boot)"
  have a: "all_ok w_boot" by code_simp
  have s: "schedules_on (strftime (60 + int 0)) (store w_boot) \<noteq> []" by code_simp
  have g: "get_schedule (strftime (60 + int 0)) w_boot =
     (Inr (Some \<lparr>date = ''2024-03-01'', first_line_support = ''EMP005''\<rparr>), w_boot)"
    by code_simp
  have f: "fill_day 60 0 w_boot = (Inr (), w_boot)" by code_simp
  have v: "available_employees 60 (strftime (60 + int 0)) \<noteq> []" by code_simp
  have m: "default_employees 60 ! 0 \<in> set (default_employees 60)" by code_simp
  have b: "strftime (60 + int 0) \<in> set (default_absences (default_employees 60 ! 0))"
    by code_simp
  have n: "default_number (default_employees 60 ! 0) = ''EMP001''" by code_simp
  from front_fill_assignment[where today = 60 and i = 0 and w = w_boot and r = "Inr ()"
         and w' = w_boot] f a s g v m b
  have skip: "same_rows w_boot w_boot \<and>
        pick_employee 60 0 \<noteq> default_number (default_employees 60 ! 0) \<and>
        pick_employee 60 0 =
          default_number (available_employees 60 (strftime (60 + int 0)) !
                            (0 mod length (available_employees 60 (strftime (60 + int 0)))))"
    by blast
  have p0: "pick_employee 60 0 = ''EMP003''" by code_simp
  have s1: "schedules_on (strftime (60 + int 1)) (store w_boot) = []" by code_simp
  have p1: "pick_employee 60 1 \<in> set (numbers (store w_boot))" by code_simp
  have f1: "fill_day 60 1 w_boot = (fst (fill_day 60 1 w_boot), ?w1)" by simp
  from front_fill_assignment[where today = 60 and i = 1 and w = w_boot
         and r = "fst (fill_day 60 1 w_boot)" and w' = "?w1"] f1 a s1 p1
  have fill: "fst (fill_day 60 1 w_boot) = Inr () \<and>
      schedules (store ?w1) = schedules (store w_boot) @
        [\<lparr>date = strftime (60 + int 1), first_line_support = pick_employee 60 1\<rparr>] \<and>
      counts_ok (store ?w1)"
    by blast
  have "schedules (store w_boot) @
        [\<lparr>date = strftime (60 + int 1), first_line_support = pick_employee 60 1\<rparr>] =
     [\<lparr>date = ''2024-03-01'', first_line_support = ''EMP005''\<rparr>,
      \<lparr>date = ''2024-03-02'', first_line_support = ''EMP002''\<rparr>]"
    by code_simp
  with fill have fill': "fst (fill_day 60 1 w_boot) = Inr () \<and>
      schedules (store ?w1) =
        [\<lparr>date = ''2024-03-01'', first_line_support = ''EMP005''\<rparr>,
         \<lparr>date = ''2024-03-02'', first_line_support = ''EMP002''\<rparr>] \<and>
      counts_ok (store ?w1)"
    by simp
  have sub: "set (map default_number (default_employees 60)) \<subseteq> set (numbers (store w_boot))"
    by code_simp
  have dis: "distinct (map (\<lambda>k. strftime (60 + int k)) [0..<7])" by code_simp
  have f7: "front_fill 60 [0..<7] w_boot = (fst (front_fill 60 [0..<7] w_boot), ?w7)"
    by simp
  from front_fill_assignment[where today = 60 and w = w_boot and js = "[0..<7]"
         and ?r2.0 = "fst (front_fill 60 [0..<7] w_boot)" and ?w2.0 = "?w7"] a sub dis f7
  have loop: "fst (front_fill 60 [0..<7] w_boot) = Inr () \<and>
      schedules (store ?w7) = schedules (store w_boot) @
        map (\<lambda>k. \<lparr>date = strftime (60 + int k), first_line_support = pick_employee 60 k\<rparr>)
          (filter (\<lambda>k. schedules_on (strftime (60 + int k)) (store w_boot) = []) [0..<7])"
    by blast
  have "schedules (store w_boot) @
        map (\<lambda>k. \<lparr>date = strftime (60 + int k), first_line_support = pick_employee 60 k\<rparr>)
          (filter (\<lambda>k. schedules_on (strftime (60 + int k)) (store w_boot) = []) [0..<7]) =
     [\<lparr>date = ''2024-03-01'', first_line_support = ''EMP005''\<rparr>,
      \<lparr>date = ''2024-03-02'', first_line_support = ''EMP002''\<rparr>,
      \<lparr>date = ''2024-03-03'', first_line_support = ''EMP003''\<rparr>,
      \<lparr>date = ''2024-03-04'', first_line_support = ''EMP002''\<rparr>,
      \<lparr>date = ''2024-03-05'', first_line_support = ''EMP005''\<rparr>,
      \<lparr>date = ''2024-03-06'', first_line_support = ''EMP003''\<rparr>,
      \<lparr>date = ''2024-03-07'', first_line_support = ''EMP004''\<rparr>]"
    by code_simp
  with loop have loop': "fst (front_fill 60 [0..<7] w_boot) = Inr () \<and>
      schedules (store ?w7) =
     [\<lparr>date = ''2024-03-01'', first_line_support = ''EMP005''\<rparr>,
      \<lparr>date = ''2024-03-02'', first_line_support = ''EMP002''\<rparr>,
      \<lparr>date = ''2024-03-03'', first_line_support = ''EMP003''\<rparr>,
      \<lparr>date = ''2024-03-04'', first_line_support = ''EMP002''\<rparr>,
      \<lparr>date = ''2024-03-05'', first_line_support = ''EMP005''\<rparr>,
      \<lparr>date = ''2024-03-06'', first_line_support = ''EMP003''\<rparr>,
      \<lparr>date = ''2024-03-07'', first_line_support = ''EMP004''\<rparr>]"
    by simp
  from a s g f v m b n skip p0 s1 p1 fill' sub dis loop' show ?thesis by blast
qed

text \<open>
  Claim C4 as stated fails. On \<open>w_boot\<close> the schedule of 2024-03-01 names EMP005. The
  loop runs while the connection drops at its first lookup: \<^verbatim>\<open>get_schedule\<close> logs the
  failure and answers \<^verbatim>\<open>None\<close>, \<^verbatim>\<open>create_schedule\<close> reconnects and upserts the day with
  the employee picked, and the existing schedule is overwritten with EMP003.
\<close>

theorem front_fill_overwrites_after_failed_lookup:
  "schedules_on ''2024-03-01'' (store (w_boot\<lparr>replies := [Lost]\<rparr>)) =
     [\<lparr>date = ''2024-03-01'', first_line_support = ''EMP005''\<rparr>] \<and>
   strftime (60 + int 0) = ''2024-03-01'' \<and>
   fst (front_fill 60 [0..<7] (w_boot\<lparr>replies := [Lost]\<rparr>)) = Inr () \<and>
   schedules_on ''2024-03-01''
     (store (snd (front_fill 60 [0..<7] (w_boot\<lparr>replies := [Lost]\<rparr>)))) =
     [\<lparr>date = ''2024-03-01'', first_line_support = ''EMP003''\<rparr>]"
  by code_simp

subsection \<open>C5: \<^verbatim>\<open>create_employee\<close> is an upsert\<close>



subsection \<open>C6: what the write operations do with a store failure\<close>




subsection \<open>C7: connecting\<close>

text \<open>
  When \<^verbatim>\<open>connect\<close> calls \<^verbatim>\<open>self.init()\<close> the connection is set: the loop of
  \<^verbatim>\<open>init\<close> is skipped and the call is \<open>create_tables\<close>, as \<open>connect\<close> has it.
\<close>

lemma init_loop_connected: "conn w \<noteq> None \<Longrightarrow> init_loop k a b w = (Inr (), w)"
  by (cases k) simp_all

lemma init_connected: "conn w \<noteq> None \<Longrightarrow> init m a b w = create_tables w"
  by (simp add: init_def init_loop_connected)

text \<open>
  \<^verbatim>\<open>connect\<close> makes one attempt: when it fails, the exception leaves \<^verbatim>\<open>connect\<close> at
  once, whatever the three parameters are and whatever the server would answer next.
\<close>

lemma connect_raises_at_first_failure:
  "replies w = x # rs \<Longrightarrow> x \<noteq> Ok \<Longrightarrow>
     connect max_retries initial_delay max_delay w = (Inl OperationalError, w\<lparr>replies := rs\<rparr>)"
  by (cases x) (simp_all add: connect_def psycopg_connect_def)

text \<open>
  The retry loop is the one of \<^verbatim>\<open>init\<close>, entered only without a connection object:
  called on a client that never connected, it sleeps one second after the failed attempt
  and connects at the second.
\<close>

lemma init_retries:
  "fst (init 30 1 10 (w_fresh\<lparr>replies := [Err, Ok]\<rparr>)) = Inr () \<and>
   conn (snd (init 30 1 10 (w_fresh\<lparr>replies := [Err, Ok]\<rparr>))) = Some False \<and>
   slept (snd (init 30 1 10 (w_fresh\<lparr>replies := [Err, Ok]\<rparr>))) = [1]"
  by code_simp

text \<open>
  Claim C7 fails on the code. On a client that never connected, with a server that
  refuses the first attempt and would accept the second, \<^verbatim>\<open>connect()\<close> raises after the
  first attempt: the second reply is never asked for, nothing is slept, and the client
  has no connection.
\<close>

theorem connect_does_not_retry:
  "connect 30 1 10 (w_fresh\<lparr>replies := [Err, Ok]\<rparr>) =
     (Inl OperationalError, w_fresh\<lparr>replies := [Ok]\<rparr>)"
  by code_simp

subsection \<open>C8: \<^verbatim>\<open>delete_employee\<close> is not one transaction\<close>

text \<open>
  Claim C8, as amended. \<^verbatim>\<open>delete_employee\<close> issues the deletion of the dependent
  schedules and the deletion of the employee row as two statements on an autocommit
  connection, each committed by itself. A call that does not return \<^verbatim>\<open>True\<close> leaves the
  employee table as it was, and the schedule table either as it was or without the rows
  that referenced the employee. The second is what remains when the schedule deletion
  succeeds and the employee deletion then fails: on a connected client, for an employee
  with schedules, when the lookup, the date query and the schedule deletion are answered
  and the fourth round trip fails, the call returns \<^verbatim>\<open>False\<close>, the schedules of the
  employee are gone and the employee row is still there.
\<close>

theorem delete_employee_not_atomic:
  assumes "delete_employee e w = (r, w')"
  shows "(r \<noteq> Inr True \<longrightarrow>
            employees (store w') = employees (store w) \<and>
            (schedules (store w') = schedules (store w) \<or>
             schedules (store w') =
               filter (\<lambda>s. first_line_support s \<noteq> e) (schedules (store w)))) \<and>
         (conn w = Some False \<and> rows_of e (store w) \<noteq> [] \<and>
          filter (\<lambda>s. first_line_support s = e) (schedules (store w)) \<noteq> [] \<and>
          (\<exists>x rs. replies w = Ok # Ok # Ok # x # rs \<and> x \<noteq> Ok) \<longrightarrow>
            r = Inr False \<and> employees (store w') = employees (store w) \<and>
            schedules (store w') =
              filter (\<lambda>s. first_line_support s \<noteq> e) (schedules (store w)))"
  using delete_employee_outcome[OF assms] delete_employee_partial[OF _ _ _ _ _ assms]
  by blast

theorem delete_employee_not_atomic_witness:
  "delete_employee ''EMP002'' w_cut = (Inr False, snd (delete_employee ''EMP002'' w_cut)) \<and>
   conn w_cut = Some False \<and> rows_of ''EMP002'' (store w_cut) \<noteq> [] \<and>
   filter (\<lambda>s. first_line_support s = ''EMP002'') (schedules (store w_cut)) \<noteq> [] \<and>
   replies w_cut = [Ok, Ok, Ok, Err] \<and>
   employees (store (snd (delete_employee ''EMP002'' w_cut))) = employees (store w_cut) \<and>
   schedules (store (snd (delete_employee ''EMP002'' w_cut))) =
     filter (\<lambda>s. first_line_support s \<noteq> ''EMP002'') (schedules (store w_cut))"
proof -
  have a: "delete_employee ''EMP002'' w_cut =
     (fst (delete_employee ''EMP002'' w_cut), snd (delete_employee ''EMP002'' w_cut))"
    by simp
  have c: "conn w_cut = Some False" by code_simp
  have x: "rows_of ''EMP002'' (store w_cut) \<noteq> []" by code_simp
  have s: "filter (\<lambda>s. first_line_support s = ''EMP002'') (schedules (store w_cut)) \<noteq> []"
    by code_simp
  have r: "replies w_cut = [Ok, Ok, Ok, Err]" by code_simp
  then have r': "\<exists>x rs. replies w_cut = Ok # Ok # Ok # x # rs \<and> x \<noteq> Ok" by simp
  from delete_employee_not_atomic[OF a] c x s r'
  have "fst (delete_employee ''EMP002'' w_cut) = Inr False \<and>
        employees (store (snd (delete_employee ''EMP002'' w_cut))) = employees (store w_cut) \<and>
        schedules (store (snd (delete_employee ''EMP002'' w_cut))) =
          filter (\<lambda>s. first_line_support s \<noteq> ''EMP002'') (schedules (store w_cut))"
    by blast
  with a c x s r show ?thesis by simp
qed

text \<open>
  Claim C8 as stated fails. On \<open>w_cut\<close> the deletion of EMP002 fails at the employee
  row, after its two schedules were deleted: the call returns \<^verbatim>\<open>False\<close>, both employee
  rows are still there, and of the three schedules only the one of EMP001 is left.
\<close>

theorem delete_employee_partial_cascade:
  "fst (delete_employee ''EMP002'' w_cut) = Inr False \<and>
   employees (store (snd (delete_employee ''EMP002'' w_cut))) = employees (store w_cut) \<and>
   schedules (store (snd (delete_employee ''EMP002'' w_cut))) =
     [\<lparr>date = ''2024-02-01'', first_line_support = ''EMP001''\<rparr>] \<and>
   schedules (store (snd (delete_employee ''EMP002'' w_cut))) \<noteq> schedules (store w_cut)"
  by code_simp

subsection \<open>C9: the range of \<^verbatim>\<open>get_schedules\<close>\<close>

text \<open>
  Claim C9, as amended. When \<^verbatim>\<open>get_schedules(start_date, end_date)\<close> returns, it returns
  exactly the schedule rows whose date is at or after the start date and at or before the
  end date, both bounds inclusive, in ascending order of date; a bound that is omitted
  or is the empty string is no bound. The call changes neither employees nor schedules,
  and it returns when no round trip fails.
\<close>

theorem get_schedules_range:
  "(get_schedules start_date end_date w = (Inr rows, w') \<longrightarrow>
      rows = sort_key date (filter (in_range start_date end_date) (schedules (store w))) \<and>
      sorted (map date rows) \<and>
      set rows = {s \<in> set (schedules (store w)). in_range start_date end_date s} \<and>
      same_rows w w') \<and>
   (all_ok w \<longrightarrow> (\<exists>rows w'. get_schedules start_date end_date w = (Inr rows, w')))"
proof (intro conjI impI)
  assume a: "get_schedules start_date end_date w = (Inr rows, w')"
  obtain r1 w1 where e1: "ensure_connected w = (r1, w1)" by (cases "ensure_connected w")
  note f1 = ensure_connected_same_rows[OF e1]
  obtain r2 w2 where e2: "await_up 30 1 10 w1 = (r2, w2)" by (cases "await_up 30 1 10 w1")
  note f2 = await_up_same_rows[OF e2]
  from a e1 e2 have e3: "execute (select_schedules start_date end_date) w2 = (Inr rows, w')"
    by (auto simp: get_schedules_def split: sum.splits)
  from execute_effect[OF e3] have 3: "store w' = store w2"
    "rows = sort_key date (filter (in_range start_date end_date) (schedules (store w2)))"
    by (auto simp: select_schedules_in_range)
  from 3 f1 f2
  show r: "rows = sort_key date (filter (in_range start_date end_date) (schedules (store w)))"
    by (simp add: same_rows_def)
  then show "sorted (map date rows)" by simp
  from r show "set rows = {s \<in> set (schedules (store w)). in_range start_date end_date s}"
    by auto
  from 3 f1 f2 show "same_rows w w'" by (simp add: same_rows_def)
next
  assume a: "all_ok w"
  obtain r1 w1 where e1: "ensure_connected w = (r1, w1)" by (cases "ensure_connected w")
  from ensure_connected_ok[OF a e1] have h1: "healthy w1" and r1: "r1 = Inr ()" by simp_all
  obtain r2 w2 where e2: "await_up 30 1 10 w1 = (r2, w2)" by (cases "await_up 30 1 10 w1")
  from await_up_healthy[OF h1 e2] have h2: "healthy w2" and r2: "r2 = Inr ()" by simp_all
  obtain r3 w3 where e3: "execute (select_schedules start_date end_date) w2 = (r3, w3)"
    by (cases "execute (select_schedules start_date end_date) w2")
  from execute_healthy[OF h2 e3] have "\<exists>rows. r3 = Inr rows"
    by (simp add: select_schedules_def)
  with e1 r1 e2 r2 e3 show "\<exists>rows w'. get_schedules start_date end_date w = (Inr rows, w')"
    by (auto simp: get_schedules_def)
qed

theorem get_schedules_range_witness:
  "get_schedules (Some ''2024-02-02'') (Some ''2024-02-03'') w_duty =
     (Inr [\<lparr>date = ''2024-02-02'', first_line_support = ''EMP002''\<rparr>,
           \<lparr>date = ''2024-02-03'', first_line_support = ''EMP002''\<rparr>],
      snd (get_schedules (Some ''2024-02-02'') (Some ''2024-02-03'') w_duty)) \<and>
   [\<lparr>date = ''2024-02-02'', first_line_support = ''EMP002''\<rparr>,
    \<lparr>date = ''2024-02-03'', first_line_support = ''EMP002''\<rparr>] =
     sort_key date (filter (in_range (Some ''2024-02-02'') (Some ''2024-02-03''))
                      (schedules (store w_duty))) \<and>
   same_rows w_duty (snd (get_schedules (Some ''2024-02-02'') (Some ''2024-02-03'') w_duty)) \<and>
   all_ok w_duty"
proof -
  have "fst (get_schedules (Some ''2024-02-02'') (Some ''2024-02-03'') w_duty) =
     Inr [\<lparr>date = ''2024-02-02'', first_line_support = ''EMP002''\<rparr>,
          \<lparr>date = ''2024-02-03'', first_line_support = ''EMP002''\<rparr>]"
    by code_simp
  then have a: "get_schedules (Some ''2024-02-02'') (Some ''2024-02-03'') w_duty =
     (Inr [\<lparr>date = ''2024-02-02'', first_line_support = ''EMP002''\<rparr>,
           \<lparr>date = ''2024-02-03'', first_line_support = ''EMP002''\<rparr>],
      snd (get_schedules (Some ''2024-02-02'') (Some ''2024-02-03'') w_duty))"
    by (simp add: prod_eq_iff)
  have b: "all_ok w_duty" by code_simp
  from get_schedules_range[of "Some ''2024-02-02''" "Some ''2024-02-03''" w_duty] a b
  show ?thesis by blast
qed

text \<open>
  Claim C9 as stated fails for a bound that is given as the empty string: the test
  \<^verbatim>\<open>if end_date:\<close> takes it for an omitted bound. With the end date \<^verbatim>\<open>""\<close> the three
  schedules of \<open>w_duty\<close> are returned, and none of them has a date at or before the
  empty string.
\<close>

theorem get_schedules_empty_end_date:
  "fst (get_schedules None (Some '''') w_duty) =
     Inr [\<lparr>date = ''2024-02-01'', first_line_support = ''EMP001''\<rparr>,
          \<lparr>date = ''2024-02-02'', first_line_support = ''EMP002''\<rparr>,
          \<lparr>date = ''2024-02-03'', first_line_support = ''EMP002''\<rparr>] \<and>
   \<not> in_range_given None (Some '''')
       \<lparr>date = ''2024-02-01'', first_line_support = ''EMP001''\<rparr> \<and>
   \<not> in_range_given None (Some '''')
       \<lparr>date = ''2024-02-02'', first_line_support = ''EMP002''\<rparr> \<and>
   \<not> in_range_given None (Some '''')
       \<lparr>date = ''2024-02-03'', first_line_support = ''EMP002''\<rparr>"
  by code_simp

subsection \<open>C10: \<^verbatim>\<open>update_employee\<close> writes the duty-count it is given\<close>








end
